theory Spec2Isabelle
  imports Complex_Main "HOL-Library.Sublist"
begin

section \<open>Numbers and strings of the host language\<close>

text \<open>
  The detectors' responses are JSON, so every number read from them is finite, and a finite
  number of the host is a rational. Stored numbers are therefore rationals. What the host
  computes from them it computes in binary floating point, where every operation may
  round; the theory does not fix that arithmetic. Where a property depends on a computed
  number (the ratio compared with 0.7, the compliance rate), the operations of the host are
  a parameter, a record \<open>arith\<close>, and the property is proved for every such record.
  \<open>exact_arith\<close> is the instance that computes without rounding; the functions are
  evaluated at it on inputs where the host does not round either (integer pixel boxes,
  halves). The functions without an arithmetic parameter (\<open>iou\<close>, \<open>overlap\<close>,
  \<open>filterDuplicatePersons\<close> and what is built on them, and the differences \<open>x2 - x1\<close>
  and \<open>y2 - y1\<close> that \<open>processDetections\<close> stores) are the instance at \<open>exact_arith\<close>,
  written out; the properties proved of them do not depend on how a ratio or a difference
  is rounded, or are about numbers that are zero.
\<close>

datatype jsnum = Finite rat | PosInfinity | NegInfinity | NaN

text \<open>\<open>a / b\<close> on finite numbers. The sign of a zero divisor is not tracked; the
  divisions of this program have a zero dividend whenever the divisor is zero
  (lemma \<open>overlap_zero_area\<close>).\<close>

definition js_div :: "rat \<Rightarrow> rat \<Rightarrow> jsnum" where
  "js_div a b =
     (if b = 0 then (if a = 0 then NaN else if 0 < a then PosInfinity else NegInfinity)
      else Finite (a / b))"

text \<open>\<open>v > c\<close> for a finite \<open>c\<close>: every comparison with NaN is false.\<close>

fun js_gt :: "jsnum \<Rightarrow> rat \<Rightarrow> bool" where
  "js_gt (Finite q) c = (c < q)"
| "js_gt PosInfinity c = True"
| "js_gt NegInfinity c = False"
| "js_gt NaN c = False"

text \<open>\<open>String.prototype.toLowerCase\<close> on ASCII text; bytes outside A..Z are kept. The
  host also maps a few characters outside ASCII onto ASCII letters (the Kelvin sign onto
  \<open>k\<close>); labels that contain them are outside the model.\<close>

fun lower_char :: "char \<Rightarrow> char" where
  "lower_char (Char b0 b1 b2 b3 b4 b5 b6 b7) =
     (let n = (of_char (Char b0 b1 b2 b3 b4 b5 b6 b7) :: nat)
      in if 65 \<le> n \<and> n \<le> 90 then Char b0 b1 b2 b3 b4 True b6 b7
         else Char b0 b1 b2 b3 b4 b5 b6 b7)"

definition toLowerCase :: "string \<Rightarrow> string" where
  "toLowerCase s = map lower_char s"

text \<open>The decimal rendering of a non-negative integer inside a template string.\<close>

function show_nat :: "nat \<Rightarrow> string" where
  "show_nat n =
     (if n < 10 then [char_of (48 + n)]
      else show_nat (n div 10) @ [char_of (48 + n mod 10)])"
  by pat_completeness auto
termination
  by (relation "measure (\<lambda>n. n)") auto

declare show_nat.simps [simp del]

text \<open>
  The operations of the host on its numbers of type \<open>'n\<close>: the number for a stored value
  or a literal, \<open>+\<close>, \<open>-\<close>, \<open>*\<close>, \<open>/\<close>, \<open>Math.max\<close>, \<open>Math.min\<close>, \<open>>\<close> and
  \<open>toFixed(1)\<close>.
\<close>

record 'n arith =
  h_num :: "rat \<Rightarrow> 'n"
  h_add :: "'n \<Rightarrow> 'n \<Rightarrow> 'n"
  h_sub :: "'n \<Rightarrow> 'n \<Rightarrow> 'n"
  h_mul :: "'n \<Rightarrow> 'n \<Rightarrow> 'n"
  h_div :: "'n \<Rightarrow> 'n \<Rightarrow> 'n"
  h_max :: "'n \<Rightarrow> 'n \<Rightarrow> 'n"
  h_min :: "'n \<Rightarrow> 'n \<Rightarrow> 'n"
  h_gt :: "'n \<Rightarrow> 'n \<Rightarrow> bool"
  h_toFixed1 :: "'n \<Rightarrow> string"

text \<open>\<open>toFixed(1)\<close> of a finite number: the integer number of tenths nearest to the
  magnitude, the larger one on a tie, printed with one decimal digit.\<close>

definition tenths :: "rat \<Rightarrow> nat" where
  "tenths x = nat \<lfloor>x * 10 + 1 / 2\<rfloor>"

definition toFixed1 :: "rat \<Rightarrow> string" where
  "toFixed1 x =
     (let n = tenths \<bar>x\<bar>
      in (if x < 0 then ''-'' else []) @ show_nat (n div 10) @ ''.'' @ show_nat (n mod 10))"

text \<open>
  The arithmetic without rounding. In the formulas of this program the operands of \<open>+\<close>,
  \<open>-\<close>, \<open>*\<close>, \<open>Math.max\<close> and \<open>Math.min\<close> are finite (a division is the last operation
  before a comparison, or has a divisor that is not zero); \<open>js_lift\<close> answers NaN for any
  other operand.
\<close>

definition js_lift :: "(rat \<Rightarrow> rat \<Rightarrow> rat) \<Rightarrow> jsnum \<Rightarrow> jsnum \<Rightarrow> jsnum" where
  "js_lift f a b =
     (case a of
        Finite x \<Rightarrow> (case b of Finite y \<Rightarrow> Finite (f x y) | _ \<Rightarrow> NaN)
      | _ \<Rightarrow> NaN)"

definition js_quot :: "jsnum \<Rightarrow> jsnum \<Rightarrow> jsnum" where
  "js_quot a b =
     (case a of
        Finite x \<Rightarrow> (case b of Finite y \<Rightarrow> js_div x y | _ \<Rightarrow> NaN)
      | _ \<Rightarrow> NaN)"

definition js_exceeds :: "jsnum \<Rightarrow> jsnum \<Rightarrow> bool" where
  "js_exceeds a b = (case b of Finite c \<Rightarrow> js_gt a c | _ \<Rightarrow> False)"

definition js_toFixed1 :: "jsnum \<Rightarrow> string" where
  "js_toFixed1 v =
     (case v of
        Finite q \<Rightarrow> toFixed1 q
      | PosInfinity \<Rightarrow> ''Infinity''
      | NegInfinity \<Rightarrow> ''-Infinity''
      | NaN \<Rightarrow> ''NaN'')"

definition exact_arith :: "jsnum arith" where
  "exact_arith =
     \<lparr> h_num = Finite,
       h_add = js_lift (\<lambda>x y. x + y),
       h_sub = js_lift (\<lambda>x y. x - y),
       h_mul = js_lift (\<lambda>x y. x * y),
       h_div = js_quot,
       h_max = js_lift max,
       h_min = js_lift min,
       h_gt = js_exceeds,
       h_toFixed1 = js_toFixed1 \<rparr>"

text \<open>
  A value that can end up in the \<open>type\<close> field of a detection. \<open>epiMapping\<close> is a plain
  object literal, so a lookup also finds the members it inherits from \<open>Object.prototype\<close>;
  \<open>JInherited k\<close> is the (truthy, non-string) member found under the key \<open>k\<close>.
\<close>

datatype jsval = JStr string | JInherited string

section \<open>Data model (EPIDetector.tsx)\<close>

record detection =
  d_id :: string
  d_type :: jsval
  d_confidence :: rat
  d_x :: rat
  d_y :: rat
  d_w :: rat
  d_h :: rat
  d_frame :: nat
  d_timestamp :: nat
  d_className :: "string option"

datatype severity = High | Medium | Low

record alert =
  a_id :: string
  a_personId :: string
  a_missingEPIs :: "string list"
  a_severity :: severity
  a_frame :: nat
  a_timestamp :: nat

text \<open>The two pieces of component state that \<open>processDetections\<close> updates.\<close>

record store =
  detections :: "detection list"
  alerts :: "alert list"

definition init_store :: store where
  "init_store = \<lparr>detections = [], alerts = []\<rparr>"

section \<open>Deduplication of persons\<close>

definition isPerson :: "detection \<Rightarrow> bool" where
  "isPerson d = (d_type d = JStr ''person'')"

text \<open>
  Lines 233 to 236, in the arithmetic \<open>ar\<close> of the host: \<open>xOverlap\<close>, \<open>yOverlap\<close>, the
  ratio \<open>iou\<close>, and \<open>filtered.some(f => ... iou > 0.7)\<close>.
\<close>

definition xOverlapBy :: "'n arith \<Rightarrow> detection \<Rightarrow> detection \<Rightarrow> 'n" where
  "xOverlapBy ar f p =
     h_max ar (h_num ar 0)
       (h_sub ar
          (h_min ar (h_add ar (h_num ar (d_x f)) (h_num ar (d_w f)))
                    (h_add ar (h_num ar (d_x p)) (h_num ar (d_w p))))
          (h_max ar (h_num ar (d_x f)) (h_num ar (d_x p))))"

definition yOverlapBy :: "'n arith \<Rightarrow> detection \<Rightarrow> detection \<Rightarrow> 'n" where
  "yOverlapBy ar f p =
     h_max ar (h_num ar 0)
       (h_sub ar
          (h_min ar (h_add ar (h_num ar (d_y f)) (h_num ar (d_h f)))
                    (h_add ar (h_num ar (d_y p)) (h_num ar (d_h p))))
          (h_max ar (h_num ar (d_y f)) (h_num ar (d_y p))))"

definition iouBy :: "'n arith \<Rightarrow> detection \<Rightarrow> detection \<Rightarrow> 'n" where
  "iouBy ar f p =
     h_div ar (h_mul ar (xOverlapBy ar f p) (yOverlapBy ar f p))
              (h_mul ar (h_num ar (d_w p)) (h_num ar (d_h p)))"

definition overlapBy :: "'n arith \<Rightarrow> detection list \<Rightarrow> detection \<Rightarrow> bool" where
  "overlapBy ar filtered p =
     list_ex (\<lambda>f. h_gt ar (iouBy ar f p) (h_num ar (7 / 10))) filtered"

text \<open>\<open>persons.forEach(p => { ...; if (!overlap) filtered.push(p) })\<close>, with the array
  \<open>filtered\<close> as the accumulator.\<close>

fun pushPersonsBy :: "'n arith \<Rightarrow> detection list \<Rightarrow> detection list \<Rightarrow> detection list" where
  "pushPersonsBy ar filtered [] = filtered"
| "pushPersonsBy ar filtered (p # ps) =
     pushPersonsBy ar (if overlapBy ar filtered p then filtered else filtered @ [p]) ps"

definition filterDuplicatePersonsBy :: "'n arith \<Rightarrow> detection list \<Rightarrow> detection list" where
  "filterDuplicatePersonsBy ar ds =
     (let persons = filter isPerson ds;
          filtered = pushPersonsBy ar [] persons;
          nonPersons = filter (\<lambda>d. \<not> isPerson d) ds
      in filtered @ nonPersons)"

text \<open>
  The lists the state \<open>detections\<close> can hold: it starts empty, is emptied by an upload, and
  is otherwise only changed by \<open>setDetections(prev => filterDuplicatePersons([...prev,
  ...newDetections]))\<close>. The new detections are left arbitrary here.
\<close>

inductive accumulated :: "'n arith \<Rightarrow> detection list \<Rightarrow> bool" for ar :: "'n arith" where
  acc_empty: "accumulated ar []"
| acc_update: "accumulated ar prev \<Longrightarrow> accumulated ar (filterDuplicatePersonsBy ar (prev @ new))"

text \<open>The same functions at \<open>exact_arith\<close>, written out (lemma
  \<open>filterDuplicatePersonsBy_exact\<close>).\<close>

definition xOverlap :: "detection \<Rightarrow> detection \<Rightarrow> rat" where
  "xOverlap f p = max 0 (min (d_x f + d_w f) (d_x p + d_w p) - max (d_x f) (d_x p))"

definition yOverlap :: "detection \<Rightarrow> detection \<Rightarrow> rat" where
  "yOverlap f p = max 0 (min (d_y f + d_h f) (d_y p + d_h p) - max (d_y f) (d_y p))"

definition iou :: "detection \<Rightarrow> detection \<Rightarrow> jsnum" where
  "iou f p = js_div (xOverlap f p * yOverlap f p) (d_w p * d_h p)"

text \<open>\<open>filtered.some(f => ... iou > 0.7)\<close>\<close>

definition overlap :: "detection list \<Rightarrow> detection \<Rightarrow> bool" where
  "overlap filtered p = list_ex (\<lambda>f. js_gt (iou f p) (7 / 10)) filtered"

text \<open>\<open>persons.forEach(p => { ...; if (!overlap) filtered.push(p) })\<close>, with the array
  \<open>filtered\<close> as the accumulator.\<close>

fun pushPersons :: "detection list \<Rightarrow> detection list \<Rightarrow> detection list" where
  "pushPersons filtered [] = filtered"
| "pushPersons filtered (p # ps) =
     pushPersons (if overlap filtered p then filtered else filtered @ [p]) ps"

definition filterDuplicatePersons :: "detection list \<Rightarrow> detection list" where
  "filterDuplicatePersons ds =
     (let persons = filter isPerson ds;
          filtered = pushPersons [] persons;
          nonPersons = filter (\<lambda>d. \<not> isPerson d) ds
      in filtered @ nonPersons)"

section \<open>Raw detector responses\<close>

text \<open>
  The shapes the two services document. A field that may be absent is an \<open>option\<close>; a box
  is the four numbers \<open>[x1, y1, x2, y2]\<close>, read by position (\<open>box[0]\<close> is \<open>fst box\<close>,
  \<open>box[3]\<close> is \<open>snd (snd (snd box))\<close>). \<open>processDetections\<close> reads a person's \<open>score\<close>,
  \<open>box\<close>, \<open>w\<close> and \<open>h\<close> only. A whole response is a \<open>person_response option\<close> or a
  \<open>ppe_response option\<close>: \<open>None\<close> is the JSON value \<open>null\<close>, the one value on which the
  unguarded access \<open>.predictions\<close> throws. Payloads of other shapes (a \<open>persons\<close> field
  that is no array, a \<open>class_name\<close> that is no string) are outside the modelled input type.
\<close>

datatype error = TypeError

type_synonym box4 = "rat \<times> rat \<times> rat \<times> rat"

record raw_person =
  p_score :: "rat option"
  p_box :: "box4 option"
  p_w :: "rat option"
  p_h :: "rat option"

record raw_ppe =
  e_class_name :: "string option"
  e_score :: "rat option"
  e_box_model_input_coords :: "box4 option"
  e_box :: "box4 option"

record person_prediction =
  persons :: "raw_person list option"

record person_response =
  person_predictions :: "person_prediction list option"

record ppe_prediction =
  ppe_detections :: "raw_ppe list option"

record ppe_response =
  ppe_predictions :: "ppe_prediction list option"

text \<open>\<open>personData.predictions?.[0]?.persons\<close>\<close>

definition persons_of :: "person_response \<Rightarrow> raw_person list option" where
  "persons_of personData =
     (case person_predictions personData of
        None \<Rightarrow> None
      | Some [] \<Rightarrow> None
      | Some (p0 # _) \<Rightarrow> persons p0)"

text \<open>\<open>ppeData.predictions?.[0]?.ppe_detections\<close>\<close>

definition ppe_detections_of :: "ppe_response \<Rightarrow> raw_ppe list option" where
  "ppe_detections_of ppeData =
     (case ppe_predictions ppeData of
        None \<Rightarrow> None
      | Some [] \<Rightarrow> None
      | Some (p0 # _) \<Rightarrow> ppe_detections p0)"

text \<open>\<open>score || 0\<close>\<close>

definition score_or_0 :: "rat option \<Rightarrow> rat" where
  "score_or_0 s = (case s of None \<Rightarrow> 0 | Some v \<Rightarrow> v)"

section \<open>processDetections (EPIDetector.tsx)\<close>

definition MIN_CONFIDENCE :: rat where
  "MIN_CONFIDENCE = 1 / 2"

text \<open>The body of the \<open>forEach\<close> over \<open>persons\<close>: \<open>None\<close> is the early \<open>return\<close>. The
  clock reading \<open>Date.now()\<close> is the parameter \<open>now\<close>.\<close>

definition personDetection :: "nat \<Rightarrow> nat \<Rightarrow> nat \<times> raw_person \<Rightarrow> detection option" where
  "personDetection frame now ip =
     (let index = fst ip; person = snd ip
      in if score_or_0 (p_score person) < MIN_CONFIDENCE then None
         else Some \<lparr>
           d_id = ''person_'' @ show_nat frame @ ''_'' @ show_nat index,
           d_type = JStr ''person'',
           d_confidence = score_or_0 (p_score person),
           d_x = (case p_box person of Some box \<Rightarrow> fst box | None \<Rightarrow> 0),
           d_y = (case p_box person of Some box \<Rightarrow> fst (snd box) | None \<Rightarrow> 0),
           d_w = (case p_box person of
                    Some box \<Rightarrow> fst (snd (snd box)) - fst box
                  | None \<Rightarrow> (case p_w person of Some v \<Rightarrow> v | None \<Rightarrow> 0)),
           d_h = (case p_box person of
                    Some box \<Rightarrow> snd (snd (snd box)) - fst (snd box)
                  | None \<Rightarrow> (case p_h person of Some v \<Rightarrow> v | None \<Rightarrow> 0)),
           d_frame = frame,
           d_timestamp = now,
           d_className = None \<rparr>)"

text \<open>The keys every object inherits from \<open>Object.prototype\<close>.\<close>

definition inheritedKeys :: "string list" where
  "inheritedKeys =
     [''constructor'', ''__proto__'', ''hasOwnProperty'', ''isPrototypeOf'',
      ''propertyIsEnumerable'', ''toString'', ''toLocaleString'', ''valueOf'',
      ''__defineGetter__'', ''__defineSetter__'', ''__lookupGetter__'', ''__lookupSetter__'']"

text \<open>\<open>epiMapping[key]\<close>: the six own entries, then the inherited members.\<close>

definition epiMapping :: "string \<Rightarrow> jsval option" where
  "epiMapping key =
     (if key = ''hat'' then Some (JStr ''hat'')
      else if key = ''boots'' then Some (JStr ''boots'')
      else if key = ''hearing'' then Some (JStr ''hearing'')
      else if key = ''goggles'' then Some (JStr ''glasses'')
      else if key = ''mask'' then Some (JStr ''mask'')
      else if key = ''gloves'' then Some (JStr ''gloves'')
      else if List.member inheritedKeys key then Some (JInherited key)
      else None)"

text \<open>The body of the \<open>forEach\<close> over \<open>ppe_detections\<close>. An absent \<open>class_name\<close> makes
  \<open>className\<close> undefined, and the lookup under it finds nothing.\<close>

definition epiDetection :: "nat \<Rightarrow> nat \<Rightarrow> nat \<times> raw_ppe \<Rightarrow> detection option" where
  "epiDetection frame now ie =
     (let index = fst ie; epi = snd ie;
          className = map_option toLowerCase (e_class_name epi);
          mappedType = (case className of None \<Rightarrow> None | Some k \<Rightarrow> epiMapping k)
      in (case mappedType of
            None \<Rightarrow> None
          | Some t \<Rightarrow>
              if score_or_0 (e_score epi) < MIN_CONFIDENCE then None
              else
                (let box = (case e_box_model_input_coords epi of
                              Some b \<Rightarrow> b
                            | None \<Rightarrow> (case e_box epi of Some b \<Rightarrow> b | None \<Rightarrow> (0, 0, 0, 0)))
                 in Some \<lparr>
                      d_id = ''epi_'' @ show_nat frame @ ''_'' @ show_nat index,
                      d_type = t,
                      d_confidence = score_or_0 (e_score epi),
                      d_x = fst box,
                      d_y = fst (snd box),
                      d_w = fst (snd (snd box)) - fst box,
                      d_h = snd (snd (snd box)) - fst (snd box),
                      d_frame = frame,
                      d_timestamp = now,
                      d_className = className \<rparr>)))"

text \<open>The person part and the PPE part of \<open>newDetections\<close>, in the order they are pushed.\<close>

definition newPersons :: "person_response \<Rightarrow> nat \<Rightarrow> nat \<Rightarrow> detection list" where
  "newPersons personData frame now =
     (case persons_of personData of
        None \<Rightarrow> []
      | Some ps \<Rightarrow> List.map_filter (personDetection frame now) (List.enumerate 0 ps))"

definition newEPIs :: "ppe_response \<Rightarrow> nat \<Rightarrow> nat \<Rightarrow> detection list" where
  "newEPIs ppeData frame now =
     (case ppe_detections_of ppeData of
        None \<Rightarrow> []
      | Some es \<Rightarrow> List.map_filter (epiDetection frame now) (List.enumerate 0 es))"

definition newDetections :: "person_response \<Rightarrow> ppe_response \<Rightarrow> nat \<Rightarrow> nat \<Rightarrow> detection list" where
  "newDetections personData ppeData frame now =
     newPersons personData frame now @ newEPIs ppeData frame now"

text \<open>\<open>detectedEPIClasses\<close>: the mapped type of every PPE detection pushed.\<close>

definition detectedEPIClasses :: "ppe_response \<Rightarrow> nat \<Rightarrow> nat \<Rightarrow> jsval set" where
  "detectedEPIClasses ppeData frame now = set (map d_type (newEPIs ppeData frame now))"

definition requiredEPIs :: "string list" where
  "requiredEPIs = [''mask'', ''glasses'', ''hearing'']"

definition missingEPIs :: "ppe_response \<Rightarrow> nat \<Rightarrow> nat \<Rightarrow> string list" where
  "missingEPIs ppeData frame now =
     filter (\<lambda>epi. JStr epi \<notin> detectedEPIClasses ppeData frame now) requiredEPIs"

text \<open>The Portuguese display names written into an alert for mask, glasses and hearing.
  The accented letters are given by their UTF-8 bytes.\<close>

definition label_mask :: string where
  "label_mask = ''M'' @ [CHR 0xC3, CHR 0xA1] @ ''scara''"

definition label_glasses :: string where
  "label_glasses =
     [CHR 0xC3, CHR 0x93] @ ''culos de Prote'' @ [CHR 0xC3, CHR 0xA7, CHR 0xC3, CHR 0xA3] @ ''o''"

definition label_hearing :: string where
  "label_hearing = ''Protetor Auricular''"

definition epiLabel :: "string \<Rightarrow> string" where
  "epiLabel epi =
     (if epi = ''mask'' then label_mask
      else if epi = ''glasses'' then label_glasses
      else if epi = ''hearing'' then label_hearing
      else epi)"

definition severityOf :: "string list \<Rightarrow> severity" where
  "severityOf missing = (if 2 \<le> length missing then High else Medium)"

text \<open>The body of \<open>personsInFrame.forEach((person, personIndex) => ...)\<close>.\<close>

definition personAlert :: "string list \<Rightarrow> nat \<Rightarrow> nat \<Rightarrow> nat \<times> detection \<Rightarrow> alert option" where
  "personAlert missing frame now ip =
     (let personIndex = fst ip; person = snd ip
      in if length missing = 0 then None
         else Some \<lparr>
           a_id = ''alert_'' @ show_nat frame @ ''_'' @ show_nat personIndex,
           a_personId = d_id person,
           a_missingEPIs = map epiLabel missing,
           a_severity = severityOf missing,
           a_frame = frame,
           a_timestamp = now \<rparr>)"

definition frameAlerts :: "person_response \<Rightarrow> ppe_response \<Rightarrow> nat \<Rightarrow> nat \<Rightarrow> alert list" where
  "frameAlerts personData ppeData frame now =
     (let personsInFrame = filter isPerson (newDetections personData ppeData frame now)
      in List.map_filter (personAlert (missingEPIs ppeData frame now) frame now)
           (List.enumerate 0 personsInFrame))"

text \<open>
  \<open>processDetections\<close>: \<open>personData.predictions\<close> and \<open>ppeData.predictions\<close> are read
  without a guard, so a \<open>null\<close> response throws before either state update is queued.
  Otherwise the two functional updates at the end run, on the state passed in.
\<close>

definition processDetections ::
  "person_response option \<Rightarrow> ppe_response option \<Rightarrow> nat \<Rightarrow> nat \<Rightarrow> store \<Rightarrow> error + store" where
  "processDetections personData ppeData frame now st =
     (case personData of
        None \<Rightarrow> Inl TypeError
      | Some pd \<Rightarrow>
          (case ppeData of
             None \<Rightarrow> Inl TypeError
           | Some ed \<Rightarrow>
               Inr \<lparr> detections =
                       filterDuplicatePersons (detections st @ newDetections pd ed frame now),
                     alerts = alerts st @ frameAlerts pd ed frame now \<rparr>))"

text \<open>\<open>handleVideoUpload\<close> clears both lists.\<close>

definition handleVideoUpload :: "store \<Rightarrow> store" where
  "handleVideoUpload st = \<lparr>detections = [], alerts = []\<rparr>"

text \<open>The stores the component can hold: the initial one, and whatever the two operations
  above make of a store it can hold.\<close>

inductive reachable :: "store \<Rightarrow> bool" where
  reach_init: "reachable init_store"
| reach_upload: "reachable st \<Longrightarrow> reachable (handleVideoUpload st)"
| reach_process:
    "reachable st \<Longrightarrow> processDetections personData ppeData frame now st = Inr st' \<Longrightarrow>
     reachable st'"

section \<open>Compliance rates (ComplianceRatesCard, AlertDashboard)\<close>

text \<open>\<open>detections.filter(d => d.type === t).length\<close>\<close>

definition countByType :: "detection list \<Rightarrow> string \<Rightarrow> nat" where
  "countByType ds t = length (filter (\<lambda>d. d_type d = JStr t) ds)"

text \<open>\<open>Math.min(100, (count / personDetections) * 100)\<close>, in the arithmetic \<open>ar\<close> of the
  host; it is only evaluated behind the guard \<open>personDetections === 0\<close> of its callers.\<close>

definition rateOf :: "'n arith \<Rightarrow> nat \<Rightarrow> nat \<Rightarrow> 'n" where
  "rateOf ar n personDetections =
     h_min ar (h_num ar 100)
       (h_mul ar (h_div ar (h_num ar (of_nat n)) (h_num ar (of_nat personDetections)))
                 (h_num ar 100))"

text \<open>\<open>getComplianceRates\<close> of \<open>ComplianceRatesCard\<close> (the six classes of
  EPIDetector.tsx). The object returned is the list of its entries, in key order.\<close>

definition getComplianceRates :: "'n arith \<Rightarrow> detection list \<Rightarrow> (string \<times> string) list" where
  "getComplianceRates ar ds =
     (let personDetections = countByType ds ''person''
      in if personDetections = 0 then []
         else
           [(''hat'', h_toFixed1 ar (rateOf ar (countByType ds ''hat'') personDetections)),
            (''mask'', h_toFixed1 ar (rateOf ar (countByType ds ''mask'') personDetections)),
            (''gloves'', h_toFixed1 ar (rateOf ar (countByType ds ''gloves'') personDetections)),
            (''glasses'', h_toFixed1 ar (rateOf ar (countByType ds ''glasses'') personDetections)),
            (''boots'', h_toFixed1 ar (rateOf ar (countByType ds ''boots'') personDetections)),
            (''hearing'', h_toFixed1 ar (rateOf ar (countByType ds ''hearing'') personDetections))])"

text \<open>\<open>getComplianceRates\<close> of \<open>AlertDashboard\<close> (its five classes).\<close>

definition getComplianceRates_AlertDashboard ::
  "'n arith \<Rightarrow> detection list \<Rightarrow> (string \<times> string) list" where
  "getComplianceRates_AlertDashboard ar ds =
     (let personDetections = countByType ds ''person''
      in if personDetections = 0 then []
         else
           [(''mask'', h_toFixed1 ar (rateOf ar (countByType ds ''mask'') personDetections)),
            (''gloves'', h_toFixed1 ar (rateOf ar (countByType ds ''gloves'') personDetections)),
            (''goggles'', h_toFixed1 ar (rateOf ar (countByType ds ''goggles'') personDetections)),
            (''coverall'', h_toFixed1 ar (rateOf ar (countByType ds ''coverall'') personDetections)),
            (''face_Shield'',
               h_toFixed1 ar (rateOf ar (countByType ds ''face_Shield'') personDetections))])"

section \<open>Live session (RealtimeDetector)\<close>

text \<open>
  The component's state: \<open>videoRef\<close> says that \<open>videoRef.current\<close> is set, \<open>srcObject\<close>
  that the video element holds a camera stream, \<open>interval\<close> that the timer made by
  \<open>setInterval\<close> is still scheduled.
\<close>

record session =
  videoRef :: bool
  srcObject :: bool
  isCameraOn :: bool
  isRealtime :: bool
  interval :: bool
  missedFrames :: nat





definition stopRealtime :: "session \<Rightarrow> session" where
  "stopRealtime s = s\<lparr>isRealtime := False, interval := False\<rparr>"


definition stopCamera :: "session \<Rightarrow> session" where
  "stopCamera s =
     (let s1 = stopRealtime s;
          s2 = (if videoRef s1 \<and> srcObject s1 then s1\<lparr>srcObject := False\<rparr> else s1)
      in s2\<lparr>isCameraOn := False\<rparr>)"






section \<open>Predicates used to state the properties\<close>

text \<open>A rectangle whose \<open>w * h\<close> is zero.\<close>

definition zeroArea :: "detection \<Rightarrow> bool" where
  "zeroArea d = (d_w d * d_h d = 0)"

text \<open>Whether the lowercased label of a PPE entry is found in \<open>epiMapping\<close>.\<close>

definition labelMapped :: "raw_ppe \<Rightarrow> bool" where
  "labelMapped epi =
     (case e_class_name epi of None \<Rightarrow> False | Some l \<Rightarrow> epiMapping (toLowerCase l) \<noteq> None)"

text \<open>The identifier \<open>person_${frame}_${index}\<close>.\<close>

definition personId :: "nat \<Rightarrow> nat \<Rightarrow> string" where
  "personId frame index = ''person_'' @ show_nat frame @ ''_'' @ show_nat index"




section \<open>Sequences of calls\<close>

text \<open>
  The store after a sequence of calls of \<open>processDetections\<close>, each given by the two
  responses, the frame number and the clock reading. A call that throws queues no update
  and leaves the store as it was.
\<close>

type_synonym call = "person_response option \<times> ppe_response option \<times> nat \<times> nat"

fun storeAfter :: "call list \<Rightarrow> store \<Rightarrow> store" where
  "storeAfter [] st = st"
| "storeAfter ((personData, ppeData, frame, now) # cs) st =
     (case processDetections personData ppeData frame now st of
        Inl e \<Rightarrow> storeAfter cs st
      | Inr st' \<Rightarrow> storeAfter cs st')"

section \<open>Concrete inputs\<close>

text \<open>Responses of the documented shape.\<close>

definition personResponse :: "raw_person list \<Rightarrow> person_response" where
  "personResponse ps = \<lparr>person_predictions = Some [\<lparr>persons = Some ps\<rparr>]\<rparr>"

definition ppeResponse :: "raw_ppe list \<Rightarrow> ppe_response" where
  "ppeResponse es = \<lparr>ppe_predictions = Some [\<lparr>ppe_detections = Some es\<rparr>]\<rparr>"

definition boxedPerson :: "rat \<Rightarrow> box4 \<Rightarrow> raw_person" where
  "boxedPerson sc b = \<lparr>p_score = Some sc, p_box = Some b, p_w = None, p_h = None\<rparr>"

definition barePerson :: "rat \<Rightarrow> raw_person" where
  "barePerson sc = \<lparr>p_score = Some sc, p_box = None, p_w = None, p_h = None\<rparr>"

definition labelled :: "string \<Rightarrow> rat \<Rightarrow> raw_ppe" where
  "labelled l sc =
     \<lparr>e_class_name = Some l, e_score = Some sc, e_box_model_input_coords = None, e_box = None\<rparr>"

text \<open>One person at box [10, 10, 50, 90]; one that overlaps it, at [12, 11, 49, 88]; one
  far from it; two entries with no box at all; and a response without \<open>predictions\<close>.\<close>

definition personsA :: person_response where
  "personsA = personResponse [boxedPerson (9 / 10) (10, 10, 50, 90)]"

definition personsB :: person_response where
  "personsB = personResponse [boxedPerson (9 / 10) (12, 11, 49, 88)]"

definition personsFar :: person_response where
  "personsFar = personResponse [boxedPerson (9 / 10) (200, 10, 240, 90)]"

definition personsBare :: person_response where
  "personsBare = personResponse [barePerson (9 / 10), barePerson (9 / 10)]"

definition noPredictions :: person_response where
  "noPredictions = \<lparr>person_predictions = None\<rparr>"

text \<open>PPE responses: a mask; nothing; and a mask, goggles at the threshold and a hearing
  protector below it.\<close>

definition ppeMask :: ppe_response where
  "ppeMask = ppeResponse [labelled ''mask'' (8 / 10)]"

definition emptyPpe :: ppe_response where
  "emptyPpe = ppeResponse []"

definition ppeMedium :: ppe_response where
  "ppeMedium = ppeResponse [labelled ''Mask'' (8 / 10), labelled ''GOGGLES'' (1 / 2),
                            labelled ''hearing'' (49 / 100)]"

definition frameA :: call where
  "frameA = (Some personsA, Some ppeMask, 0, 1000)"

definition frameB :: call where
  "frameB = (Some personsB, Some emptyPpe, 10, 1500)"

definition frameFar :: call where
  "frameFar = (Some personsFar, Some emptyPpe, 10, 1500)"

definition frameBare :: call where
  "frameBare = (Some personsBare, Some emptyPpe, 0, 1000)"

definition frameMedium :: call where
  "frameMedium = (Some personsA, Some ppeMedium, 20, 2000)"

text \<open>The detections these frames produce.\<close>

definition personA :: detection where
  "personA = \<lparr>d_id = ''person_0_0'', d_type = JStr ''person'', d_confidence = 9 / 10,
     d_x = 10, d_y = 10, d_w = 40, d_h = 80, d_frame = 0, d_timestamp = 1000, d_className = None\<rparr>"

definition personB :: detection where
  "personB = \<lparr>d_id = ''person_10_0'', d_type = JStr ''person'', d_confidence = 9 / 10,
     d_x = 12, d_y = 11, d_w = 37, d_h = 77, d_frame = 10, d_timestamp = 1500, d_className = None\<rparr>"

definition personFar :: detection where
  "personFar = \<lparr>d_id = ''person_10_0'', d_type = JStr ''person'', d_confidence = 9 / 10,
     d_x = 200, d_y = 10, d_w = 40, d_h = 80, d_frame = 10, d_timestamp = 1500, d_className = None\<rparr>"

definition maskA :: detection where
  "maskA = \<lparr>d_id = ''epi_0_0'', d_type = JStr ''mask'', d_confidence = 8 / 10,
     d_x = 0, d_y = 0, d_w = 0, d_h = 0, d_frame = 0, d_timestamp = 1000, d_className = Some ''mask''\<rparr>"

definition bare0 :: detection where
  "bare0 = \<lparr>d_id = ''person_0_0'', d_type = JStr ''person'', d_confidence = 9 / 10,
     d_x = 0, d_y = 0, d_w = 0, d_h = 0, d_frame = 0, d_timestamp = 1000, d_className = None\<rparr>"

definition bare1 :: detection where
  "bare1 = \<lparr>d_id = ''person_0_1'', d_type = JStr ''person'', d_confidence = 9 / 10,
     d_x = 0, d_y = 0, d_w = 0, d_h = 0, d_frame = 0, d_timestamp = 1000, d_className = None\<rparr>"






section \<open>Properties of the deduplication, in any arithmetic\<close>

lemma overlapBy_append:
  "overlapBy ar (fs @ gs) p = (overlapBy ar fs p \<or> overlapBy ar gs p)"
  by (simp add: overlapBy_def list_ex_iff) blast

lemma overlapBy_mem:
  "f \<in> set fs \<Longrightarrow> h_gt ar (iouBy ar f p) (h_num ar (7 / 10)) \<Longrightarrow> overlapBy ar fs p"
  by (auto simp: overlapBy_def list_ex_iff)

lemma pushPersonsBy_append:
  "pushPersonsBy ar filtered (ps @ qs) = pushPersonsBy ar (pushPersonsBy ar filtered ps) qs"
  by (induction ps arbitrary: filtered) simp_all

text \<open>What the loop pushes: a subsequence of the persons given, none of which overlaps
  what was there before.\<close>

lemma pushPersonsBy_decomp:
  "\<exists>added. pushPersonsBy ar filtered ps = filtered @ added \<and> subseq added ps
      \<and> (\<forall>p \<in> set added. \<not> overlapBy ar filtered p)"
proof (induction ps arbitrary: filtered)
  case Nil
  then show ?case by simp
next
  case (Cons p ps)
  show ?case
  proof (cases "overlapBy ar filtered p")
    case True
    from Cons.IH [of filtered] obtain added where
      "pushPersonsBy ar filtered ps = filtered @ added" "subseq added ps"
      "\<forall>q \<in> set added. \<not> overlapBy ar filtered q" by blast
    with True show ?thesis by (auto intro: subseq_Cons')
  next
    case False
    from Cons.IH [of "filtered @ [p]"] obtain added where
      a: "pushPersonsBy ar (filtered @ [p]) ps = (filtered @ [p]) @ added"
      and s: "subseq added ps"
      and b: "\<forall>q \<in> set added. \<not> overlapBy ar (filtered @ [p]) q" by blast
    have "\<forall>q \<in> set (p # added). \<not> overlapBy ar filtered q"
      using b False by (auto simp: overlapBy_append)
    moreover have "pushPersonsBy ar filtered (p # ps) = filtered @ (p # added)"
      using a False by simp
    moreover have "subseq (p # added) (p # ps)" using s by simp
    ultimately show ?thesis by blast
  qed
qed

lemma set_pushPersonsBy: "set (pushPersonsBy ar filtered ps) \<subseteq> set filtered \<union> set ps"
proof -
  obtain added where "pushPersonsBy ar filtered ps = filtered @ added" "subseq added ps"
    using pushPersonsBy_decomp by blast
  then show ?thesis using list_emb_set [of "(=)" added ps] by auto
qed

text \<open>A list the loop leaves alone is left alone after more persons were pushed.\<close>

lemma separated_pushPersonsBy:
  "pushPersonsBy ar [] filtered = filtered \<Longrightarrow>
   pushPersonsBy ar [] (pushPersonsBy ar filtered ps) = pushPersonsBy ar filtered ps"
proof (induction ps arbitrary: filtered)
  case Nil
  then show ?case by simp
next
  case (Cons p ps)
  show ?case
  proof (cases "overlapBy ar filtered p")
    case True
    then show ?thesis using Cons by simp
  next
    case False
    have "pushPersonsBy ar [] (filtered @ [p]) = filtered @ [p]"
      using Cons.prems False by (simp add: pushPersonsBy_append)
    from Cons.IH [OF this] show ?thesis using False by simp
  qed
qed

lemma pushPersonsBy_idem:
  "pushPersonsBy ar [] (pushPersonsBy ar [] ps) = pushPersonsBy ar [] ps"
  by (rule separated_pushPersonsBy) simp

lemma filter_pushPersonsBy_persons:
  "filter isPerson (pushPersonsBy ar [] (filter isPerson ds)) =
   pushPersonsBy ar [] (filter isPerson ds)"
  using set_pushPersonsBy [of ar "[]" "filter isPerson ds"] by (auto intro!: filter_True)

lemma filter_pushPersonsBy_nonpersons:
  "filter (\<lambda>d. \<not> isPerson d) (pushPersonsBy ar [] (filter isPerson ds)) = []"
  using set_pushPersonsBy [of ar "[]" "filter isPerson ds"] by (auto simp: filter_empty_conv)

lemma persons_filterDuplicatePersonsBy:
  "filter isPerson (filterDuplicatePersonsBy ar ds) = pushPersonsBy ar [] (filter isPerson ds)"
  by (simp add: filterDuplicatePersonsBy_def Let_def filter_pushPersonsBy_persons)

lemma nonpersons_filterDuplicatePersonsBy:
  "filter (\<lambda>d. \<not> isPerson d) (filterDuplicatePersonsBy ar ds) = filter (\<lambda>d. \<not> isPerson d) ds"
  by (simp add: filterDuplicatePersonsBy_def Let_def filter_pushPersonsBy_nonpersons)

lemma filterDuplicatePersonsBy_idem:
  "filterDuplicatePersonsBy ar (filterDuplicatePersonsBy ar ds) = filterDuplicatePersonsBy ar ds"
proof -
  have "filterDuplicatePersonsBy ar (filterDuplicatePersonsBy ar ds) =
        pushPersonsBy ar [] (filter isPerson (filterDuplicatePersonsBy ar ds)) @
        filter (\<lambda>d. \<not> isPerson d) (filterDuplicatePersonsBy ar ds)"
    by (simp add: filterDuplicatePersonsBy_def Let_def)
  also have "\<dots> = pushPersonsBy ar [] (filter isPerson ds) @ filter (\<lambda>d. \<not> isPerson d) ds"
    by (simp only: persons_filterDuplicatePersonsBy nonpersons_filterDuplicatePersonsBy
        pushPersonsBy_idem)
  finally show ?thesis by (simp add: filterDuplicatePersonsBy_def Let_def)
qed

text \<open>Every list the state can hold is left alone by the deduplication.\<close>

lemma accumulated_fixed: "accumulated ar s \<Longrightarrow> filterDuplicatePersonsBy ar s = s"
proof (induction rule: accumulated.induct)
  case acc_empty
  show ?case by (simp add: filterDuplicatePersonsBy_def)
next
  case (acc_update prev new)
  show ?case by (rule filterDuplicatePersonsBy_idem)
qed

lemma fixedBy_persons:
  assumes "filterDuplicatePersonsBy ar s = s"
  shows "pushPersonsBy ar [] (filter isPerson s) = filter isPerson s"
  using persons_filterDuplicatePersonsBy [of ar s] assms by simp

lemma fixedBy_split:
  assumes "filterDuplicatePersonsBy ar s = s"
  shows "s = filter isPerson s @ filter (\<lambda>d. \<not> isPerson d) s"
proof -
  have "s = pushPersonsBy ar [] (filter isPerson s) @ filter (\<lambda>d. \<not> isPerson d) s"
    using assms by (simp add: filterDuplicatePersonsBy_def Let_def)
  then show ?thesis using fixedBy_persons [OF assms] by simp
qed

lemma filterDuplicatePersonsBy_append:
  assumes "filterDuplicatePersonsBy ar s = s"
  shows "filterDuplicatePersonsBy ar (s @ new) =
         pushPersonsBy ar (filter isPerson s) (filter isPerson new) @
         filter (\<lambda>d. \<not> isPerson d) s @ filter (\<lambda>d. \<not> isPerson d) new"
  by (simp add: filterDuplicatePersonsBy_def Let_def pushPersonsBy_append
      fixedBy_persons [OF assms])

text \<open>The shape of the list after one update.\<close>

lemma storeBy_after_frame:
  assumes "filterDuplicatePersonsBy ar s = s"
  shows "\<exists>added. filterDuplicatePersonsBy ar (s @ new) =
           filter isPerson s @ added @ filter (\<lambda>d. \<not> isPerson d) s @ filter (\<lambda>d. \<not> isPerson d) new
         \<and> subseq added (filter isPerson new)
         \<and> (\<forall>p \<in> set added. \<not> overlapBy ar (filter isPerson s) p)"
proof -
  obtain added where
    "pushPersonsBy ar (filter isPerson s) (filter isPerson new) = filter isPerson s @ added"
    "subseq added (filter isPerson new)"
    "\<forall>p \<in> set added. \<not> overlapBy ar (filter isPerson s) p"
    using pushPersonsBy_decomp by blast
  then show ?thesis using filterDuplicatePersonsBy_append [OF assms, of new] by auto
qed

section \<open>The instance at exact arithmetic\<close>

lemma xOverlapBy_exact: "xOverlapBy exact_arith f p = Finite (xOverlap f p)"
  by (simp add: xOverlapBy_def xOverlap_def exact_arith_def js_lift_def)

lemma yOverlapBy_exact: "yOverlapBy exact_arith f p = Finite (yOverlap f p)"
  by (simp add: yOverlapBy_def yOverlap_def exact_arith_def js_lift_def)

lemma iouBy_exact: "iouBy exact_arith f p = iou f p"
  by (simp add: iouBy_def iou_def xOverlapBy_exact yOverlapBy_exact)
     (simp add: exact_arith_def js_lift_def js_quot_def)

lemma test_exact:
  "h_gt exact_arith (iouBy exact_arith f p) (h_num exact_arith (7 / 10)) = js_gt (iou f p) (7 / 10)"
  by (simp add: iouBy_exact) (simp add: exact_arith_def js_exceeds_def)

lemma overlapBy_exact: "overlapBy exact_arith filtered p = overlap filtered p"
  by (simp add: overlapBy_def overlap_def test_exact)

lemma pushPersonsBy_exact: "pushPersonsBy exact_arith filtered ps = pushPersons filtered ps"
  by (induction ps arbitrary: filtered) (simp_all add: overlapBy_exact)

lemma filterDuplicatePersonsBy_exact:
  "filterDuplicatePersonsBy exact_arith ds = filterDuplicatePersons ds"
  by (simp add: filterDuplicatePersonsBy_def filterDuplicatePersons_def pushPersonsBy_exact)

lemmas exact_defs = overlapBy_exact pushPersonsBy_exact filterDuplicatePersonsBy_exact

section \<open>Properties of the deduplication at exact arithmetic\<close>

lemma overlap_append: "overlap (fs @ gs) p = (overlap fs p \<or> overlap gs p)"
  by (simp add: overlap_def list_ex_iff) blast

lemma pushPersons_append:
  "pushPersons filtered (ps @ qs) = pushPersons (pushPersons filtered ps) qs"
  by (induction ps arbitrary: filtered) simp_all

lemma pushPersons_decomp:
  "\<exists>added. pushPersons filtered ps = filtered @ added \<and> subseq added ps
      \<and> (\<forall>p \<in> set added. \<not> overlap filtered p)"
proof (induction ps arbitrary: filtered)
  case Nil
  then show ?case by simp
next
  case (Cons p ps)
  show ?case
  proof (cases "overlap filtered p")
    case True
    from Cons.IH [of filtered] obtain added where
      "pushPersons filtered ps = filtered @ added" "subseq added ps"
      "\<forall>q \<in> set added. \<not> overlap filtered q" by blast
    with True show ?thesis by (auto intro: subseq_Cons')
  next
    case False
    from Cons.IH [of "filtered @ [p]"] obtain added where
      a: "pushPersons (filtered @ [p]) ps = (filtered @ [p]) @ added"
      and s: "subseq added ps"
      and b: "\<forall>q \<in> set added. \<not> overlap (filtered @ [p]) q" by blast
    have "\<forall>q \<in> set (p # added). \<not> overlap filtered q"
      using b False by (auto simp: overlap_append)
    moreover have "pushPersons filtered (p # ps) = filtered @ (p # added)"
      using a False by simp
    moreover have "subseq (p # added) (p # ps)" using s by simp
    ultimately show ?thesis by blast
  qed
qed

lemma set_pushPersons: "set (pushPersons filtered ps) \<subseteq> set filtered \<union> set ps"
proof -
  obtain added where "pushPersons filtered ps = filtered @ added" "subseq added ps"
    using pushPersons_decomp by blast
  then show ?thesis using list_emb_set [of "(=)" added ps] by auto
qed

lemma separated_pushPersons:
  "pushPersons [] filtered = filtered \<Longrightarrow>
   pushPersons [] (pushPersons filtered ps) = pushPersons filtered ps"
proof (induction ps arbitrary: filtered)
  case Nil
  then show ?case by simp
next
  case (Cons p ps)
  show ?case
  proof (cases "overlap filtered p")
    case True
    then show ?thesis using Cons by simp
  next
    case False
    have "pushPersons [] (filtered @ [p]) = filtered @ [p]"
      using Cons.prems False by (simp add: pushPersons_append)
    from Cons.IH [OF this] show ?thesis using False by simp
  qed
qed

lemma pushPersons_idem: "pushPersons [] (pushPersons [] ps) = pushPersons [] ps"
  by (rule separated_pushPersons) simp

lemma filter_pushPersons_persons:
  "filter isPerson (pushPersons [] (filter isPerson ds)) = pushPersons [] (filter isPerson ds)"
  using set_pushPersons [of "[]" "filter isPerson ds"] by (auto intro!: filter_True)

lemma filter_pushPersons_nonpersons:
  "filter (\<lambda>d. \<not> isPerson d) (pushPersons [] (filter isPerson ds)) = []"
  using set_pushPersons [of "[]" "filter isPerson ds"] by (auto simp: filter_empty_conv)

lemma persons_filterDuplicatePersons:
  "filter isPerson (filterDuplicatePersons ds) = pushPersons [] (filter isPerson ds)"
  by (simp add: filterDuplicatePersons_def Let_def filter_pushPersons_persons)

lemma nonpersons_filterDuplicatePersons:
  "filter (\<lambda>d. \<not> isPerson d) (filterDuplicatePersons ds) = filter (\<lambda>d. \<not> isPerson d) ds"
  by (simp add: filterDuplicatePersons_def Let_def filter_pushPersons_nonpersons)

lemma filterDuplicatePersons_idem:
  "filterDuplicatePersons (filterDuplicatePersons ds) = filterDuplicatePersons ds"
proof -
  have "filterDuplicatePersons (filterDuplicatePersons ds) =
        pushPersons [] (filter isPerson (filterDuplicatePersons ds)) @
        filter (\<lambda>d. \<not> isPerson d) (filterDuplicatePersons ds)"
    by (simp add: filterDuplicatePersons_def Let_def)
  also have "\<dots> = pushPersons [] (filter isPerson ds) @ filter (\<lambda>d. \<not> isPerson d) ds"
    by (simp only: persons_filterDuplicatePersons nonpersons_filterDuplicatePersons
        pushPersons_idem)
  finally show ?thesis by (simp add: filterDuplicatePersons_def Let_def)
qed

lemma processDetections_Inr:
  "processDetections personData ppeData frame now st = Inr st' \<longleftrightarrow>
   (\<exists>pd ed. personData = Some pd \<and> ppeData = Some ed \<and>
      st' = \<lparr> detections =
                filterDuplicatePersons (detections st @ newDetections pd ed frame now),
              alerts = alerts st @ frameAlerts pd ed frame now \<rparr>)"
  by (auto simp: processDetections_def split: option.splits)

lemma reachable_fixed:
  "reachable st \<Longrightarrow> filterDuplicatePersons (detections st) = detections st"
proof (induction rule: reachable.induct)
  case reach_init
  show ?case by (simp add: init_store_def filterDuplicatePersons_def)
next
  case (reach_upload st)
  show ?case by (simp add: handleVideoUpload_def filterDuplicatePersons_def)
next
  case (reach_process st personData ppeData frame now st')
  then show ?case by (auto simp: processDetections_Inr filterDuplicatePersons_idem)
qed

lemma fixed_persons:
  assumes "filterDuplicatePersons s = s"
  shows "pushPersons [] (filter isPerson s) = filter isPerson s"
  using persons_filterDuplicatePersons [of s] assms by simp

lemma fixed_split:
  assumes "filterDuplicatePersons s = s"
  shows "s = filter isPerson s @ filter (\<lambda>d. \<not> isPerson d) s"
proof -
  have "s = pushPersons [] (filter isPerson s) @ filter (\<lambda>d. \<not> isPerson d) s"
    using assms by (simp add: filterDuplicatePersons_def Let_def)
  then show ?thesis using fixed_persons [OF assms] by simp
qed

lemma filterDuplicatePersons_append:
  assumes "filterDuplicatePersons s = s"
  shows "filterDuplicatePersons (s @ new) =
         pushPersons (filter isPerson s) (filter isPerson new) @
         filter (\<lambda>d. \<not> isPerson d) s @ filter (\<lambda>d. \<not> isPerson d) new"
  by (simp add: filterDuplicatePersons_def Let_def pushPersons_append fixed_persons [OF assms])

text \<open>The shape of the store after one frame.\<close>

lemma store_after_frame:
  assumes "filterDuplicatePersons s = s"
  shows "\<exists>added. filterDuplicatePersons (s @ new) =
           filter isPerson s @ added @ filter (\<lambda>d. \<not> isPerson d) s @ filter (\<lambda>d. \<not> isPerson d) new
         \<and> subseq added (filter isPerson new)
         \<and> (\<forall>p \<in> set added. \<not> overlap (filter isPerson s) p)"
proof -
  obtain added where
    "pushPersons (filter isPerson s) (filter isPerson new) = filter isPerson s @ added"
    "subseq added (filter isPerson new)"
    "\<forall>p \<in> set added. \<not> overlap (filter isPerson s) p"
    using pushPersons_decomp by blast
  then show ?thesis using filterDuplicatePersons_append [OF assms, of new] by auto
qed

lemma reachable_storeAfter: "reachable st \<Longrightarrow> reachable (storeAfter cs st)"
proof (induction cs arbitrary: st)
  case Nil
  then show ?case by simp
next
  case (Cons c cs)
  obtain personData ppeData frame now where c: "c = (personData, ppeData, frame, now)"
    by (cases c) auto
  show ?case
  proof (cases "processDetections personData ppeData frame now st")
    case (Inl e)
    then show ?thesis using Cons c by simp
  next
    case (Inr st')
    then have "reachable st'" using Cons.prems by (rule reach_process [rotated])
    then show ?thesis using Cons.IH Inr c by simp
  qed
qed

lemmas model_defs = personResponse_def ppeResponse_def boxedPerson_def barePerson_def labelled_def
  personsA_def personsB_def personsFar_def personsBare_def ppeMask_def emptyPpe_def ppeMedium_def
  processDetections_def newDetections_def newPersons_def newEPIs_def
  persons_of_def ppe_detections_of_def personDetection_def epiDetection_def score_or_0_def
  MIN_CONFIDENCE_def List.map_filter_def List.enumerate_eq_zip frameAlerts_def missingEPIs_def
  detectedEPIClasses_def requiredEPIs_def personAlert_def severityOf_def epiLabel_def
  filterDuplicatePersons_def isPerson_def overlap_def iou_def js_div_def xOverlap_def yOverlap_def
  init_store_def toLowerCase_def epiMapping_def inheritedKeys_def Let_def

lemmas eval_defs = model_defs show_nat.simps char_of_eq_iff

section \<open>The example frames, evaluated\<close>

lemmas example_defs = frameA_def frameB_def frameFar_def personA_def personB_def personFar_def maskA_def

lemma detections_frameA: "detections (storeAfter [frameA] init_store) = [personA, maskA]"
  by (simp add: example_defs eval_defs)

lemma newDetections_frameB:
  "newDetections personsB emptyPpe 10 1500 = [personB]"
  by (simp add: example_defs eval_defs)

lemma step_frameB:
  "processDetections (Some personsB) (Some emptyPpe) 10 1500 (storeAfter [frameA] init_store)
     = Inr (storeAfter [frameA, frameB] init_store)"
  by (simp add: example_defs eval_defs)

lemma detections_frameAB: "detections (storeAfter [frameA, frameB] init_store) = [personA, maskA]"
  by (simp add: example_defs eval_defs)

lemma detections_frameAFar:
  "detections (storeAfter [frameA, frameFar] init_store) = [personA, personFar, maskA]"
  by (simp add: example_defs eval_defs)

lemma iou_AB: "iou personA personB = Finite 1"
  by (simp add: example_defs eval_defs)

section \<open>Claims about deduplication and order\<close>

lemma processDetections_exact:
  "processDetections (Some pd) (Some ed) frame now st = Inr st' \<Longrightarrow>
   detections st' =
     filterDuplicatePersonsBy exact_arith (detections st @ newDetections pd ed frame now)"
  by (auto simp: processDetections_Inr filterDuplicatePersonsBy_exact)

lemma reachable_accumulated: "reachable st \<Longrightarrow> accumulated exact_arith (detections st)"
proof (induction rule: reachable.induct)
  case reach_init
  show ?case by (simp add: init_store_def acc_empty)
next
  case (reach_upload st)
  show ?case by (simp add: handleVideoUpload_def acc_empty)
next
  case (reach_process st personData ppeData frame now st')
  from reach_process.hyps(2) obtain pd ed where
    "detections st' = filterDuplicatePersons (detections st @ newDetections pd ed frame now)"
    by (auto simp: processDetections_Inr)
  then have "detections st' =
      filterDuplicatePersonsBy exact_arith (detections st @ newDetections pd ed frame now)"
    by (simp add: filterDuplicatePersonsBy_exact)
  then show ?case using reach_process.IH by (simp add: acc_update)
qed

text \<open>
  Claim C1, in whatever arithmetic \<open>ar\<close> the host computes the ratio. Let \<open>s\<close> be a list the
  state \<open>detections\<close> can hold, \<open>A\<close> a person detection in it, and \<open>B\<close> a person detection
  among the new detections of a call, which the state update appends to \<open>s\<close>. If the ratio
  the code computes for \<open>A\<close> and \<open>B\<close>, the area of the intersection divided by the area of
  \<open>B\<close>, exceeds 0.7 in the comparison the code makes, then \<open>B\<close> is not added: the new list
  is the stored persons, then the added persons, then the non-persons, \<open>B\<close> is none of the
  added ones, and the list holds as many copies of \<open>B\<close> as before. \<open>A\<close> is still in the
  list. Whatever \<open>s\<close> is, no detection that is not a person is removed.
\<close>

theorem duplicate_person_not_added:
  "(accumulated ar s \<and> A \<in> set s \<and> isPerson A \<and> B \<in> set new \<and> isPerson B \<and>
      h_gt ar (iouBy ar A B) (h_num ar (7 / 10)) \<longrightarrow>
        (\<exists>added. filterDuplicatePersonsBy ar (s @ new) =
             filter isPerson s @ added @ filter (\<lambda>d. \<not> isPerson d) (s @ new)
           \<and> B \<notin> set added)
        \<and> count_list (filterDuplicatePersonsBy ar (s @ new)) B = count_list s B
        \<and> A \<in> set (filterDuplicatePersonsBy ar (s @ new)))
   \<and> filter (\<lambda>d. \<not> isPerson d) (filterDuplicatePersonsBy ar (s @ new)) =
       filter (\<lambda>d. \<not> isPerson d) (s @ new)"
proof -
  let ?N = "\<lambda>d. \<not> isPerson d"
  let ?s' = "filterDuplicatePersonsBy ar (s @ new)"
  have nonp: "filter ?N ?s' = filter ?N (s @ new)"
    by (rule nonpersons_filterDuplicatePersonsBy)
  have main: "(\<exists>added. ?s' = filter isPerson s @ added @ filter ?N (s @ new) \<and> B \<notin> set added)
          \<and> count_list ?s' B = count_list s B \<and> A \<in> set ?s'"
    if r: "accumulated ar s" and A: "A \<in> set s" "isPerson A"
      and B: "B \<in> set new" "isPerson B"
      and ov: "h_gt ar (iouBy ar A B) (h_num ar (7 / 10))"
  proof -
    have fixed: "filterDuplicatePersonsBy ar s = s" using r by (rule accumulated_fixed)
    obtain added where
      eq: "?s' = filter isPerson s @ added @ filter ?N s @ filter ?N new"
      and no: "\<forall>p \<in> set added. \<not> overlapBy ar (filter isPerson s) p"
      using storeBy_after_frame [OF fixed, of new] by blast
    have "overlapBy ar (filter isPerson s) B"
      using A ov by (auto intro: overlapBy_mem)
    then have notin: "B \<notin> set added" using no by blast
    have split: "s = filter isPerson s @ filter ?N s" using fixed by (rule fixedBy_split)
    have cN: "count_list (filter ?N s) B = 0" "count_list (filter ?N new) B = 0"
      using B(2) by (simp_all add: count_list_0_iff)
    have "count_list ?s' B = count_list (filter isPerson s) B"
      unfolding eq using notin cN by (simp add: count_list_0_iff)
    also have "\<dots> = count_list (filter isPerson s @ filter ?N s) B"
      using cN by simp
    also have "\<dots> = count_list s B" using split by simp
    finally have cnt: "count_list ?s' B = count_list s B" .
    have "A \<in> set ?s'" unfolding eq using A by simp
    moreover have "?s' = filter isPerson s @ added @ filter ?N (s @ new)"
      unfolding eq by simp
    ultimately show ?thesis using notin cnt by blast
  qed
  show ?thesis using main nonp by blast
qed

theorem duplicate_person_not_added_witness:
  "accumulated exact_arith (detections (storeAfter [frameA] init_store))
   \<and> personA \<in> set (detections (storeAfter [frameA] init_store)) \<and> isPerson personA
   \<and> personB \<in> set (newDetections personsB emptyPpe 10 1500) \<and> isPerson personB
   \<and> h_gt exact_arith (iouBy exact_arith personA personB) (h_num exact_arith (7 / 10))
   \<and> processDetections (Some personsB) (Some emptyPpe) 10 1500 (storeAfter [frameA] init_store)
       = Inr (storeAfter [frameA, frameB] init_store)
   \<and> detections (storeAfter [frameA, frameB] init_store) =
       filterDuplicatePersonsBy exact_arith
         (detections (storeAfter [frameA] init_store) @ newDetections personsB emptyPpe 10 1500)
   \<and> count_list (detections (storeAfter [frameA, frameB] init_store)) personB = 0
   \<and> personA \<in> set (detections (storeAfter [frameA, frameB] init_store))
   \<and> filter (\<lambda>d. \<not> isPerson d) (detections (storeAfter [frameA, frameB] init_store)) = [maskA]"
proof -
  let ?s = "detections (storeAfter [frameA] init_store)"
  let ?new = "newDetections personsB emptyPpe 10 1500"
  let ?s' = "detections (storeAfter [frameA, frameB] init_store)"
  have r: "accumulated exact_arith ?s"
    by (rule reachable_accumulated, rule reachable_storeAfter, rule reach_init)
  have A: "personA \<in> set ?s" "isPerson personA"
    by (simp_all add: detections_frameA) (simp add: personA_def isPerson_def)
  have B: "personB \<in> set ?new" "isPerson personB"
    by (simp_all add: newDetections_frameB) (simp add: personB_def isPerson_def)
  have ov: "h_gt exact_arith (iouBy exact_arith personA personB) (h_num exact_arith (7 / 10))"
    by (simp add: test_exact iou_AB)
  have s': "?s' = filterDuplicatePersonsBy exact_arith (?s @ ?new)"
    using step_frameB by (rule processDetections_exact)
  have old: "count_list ?s personB = 0"
    by (simp add: detections_frameA personA_def personB_def maskA_def)
  have nonp: "filter (\<lambda>d. \<not> isPerson d) (?s @ ?new) = [maskA]"
    by (simp add: detections_frameA newDetections_frameB isPerson_def personA_def personB_def
        maskA_def)
  from duplicate_person_not_added [of exact_arith ?s personA personB ?new] r A B ov
  have "count_list (filterDuplicatePersonsBy exact_arith (?s @ ?new)) personB = count_list ?s personB
      \<and> personA \<in> set (filterDuplicatePersonsBy exact_arith (?s @ ?new))
      \<and> filter (\<lambda>d. \<not> isPerson d) (filterDuplicatePersonsBy exact_arith (?s @ ?new)) =
          filter (\<lambda>d. \<not> isPerson d) (?s @ ?new)"
    by blast
  then have "count_list ?s' personB = 0 \<and> personA \<in> set ?s'
      \<and> filter (\<lambda>d. \<not> isPerson d) ?s' = [maskA]"
    using s' old nonp by simp
  then show ?thesis using r A B ov step_frameB s' by blast
qed

text \<open>
  Claim C7, as stated, fails: the store does not keep every stored detection before every
  new one. After a frame with a person and a mask, a second frame with a person elsewhere
  puts the new person before the stored mask.
\<close>

theorem order_counterexample:
  "processDetections (Some personsFar) (Some emptyPpe) 10 1500 (storeAfter [frameA] init_store)
     = Inr (storeAfter [frameA, frameFar] init_store)
   \<and> detections (storeAfter [frameA] init_store) = [personA, maskA]
   \<and> detections (storeAfter [frameA, frameFar] init_store) = [personA, personFar, maskA]
   \<and> personFar \<notin> set (detections (storeAfter [frameA] init_store))
   \<and> \<not> prefix (detections (storeAfter [frameA] init_store))
           (detections (storeAfter [frameA, frameFar] init_store))"
proof -
  have 1: "processDetections (Some personsFar) (Some emptyPpe) 10 1500 (storeAfter [frameA] init_store)
     = Inr (storeAfter [frameA, frameFar] init_store)"
    by (simp add: example_defs eval_defs)
  have 2: "personFar \<noteq> personA" "personFar \<noteq> maskA" "maskA \<noteq> personFar"
    by (simp_all add: example_defs)
  show ?thesis using 1 2 by (simp add: detections_frameA detections_frameAFar)
qed

text \<open>
  Claim C7, amended. After one frame is merged into a store the component can hold, the
  detections are the stored persons, then the new persons that were kept (a subsequence of
  the new persons), then the stored non-persons, then the new non-persons. Insertion order
  is kept among the persons and among the non-persons, and every person comes before every
  non-person.
\<close>

theorem store_order_after_frame:
  assumes "reachable st"
    and "processDetections (Some pd) (Some ed) frame now st = Inr st'"
  shows "\<exists>added.
           detections st' =
             filter isPerson (detections st) @ added @
             filter (\<lambda>d. \<not> isPerson d) (detections st) @
             filter (\<lambda>d. \<not> isPerson d) (newDetections pd ed frame now)
         \<and> subseq added (filter isPerson (newDetections pd ed frame now))
         \<and> detections st = filter isPerson (detections st) @ filter (\<lambda>d. \<not> isPerson d) (detections st)"
proof -
  have fixed: "filterDuplicatePersons (detections st) = detections st"
    using assms(1) by (rule reachable_fixed)
  have st': "detections st' = filterDuplicatePersons (detections st @ newDetections pd ed frame now)"
    using assms(2) by (auto simp: processDetections_Inr)
  from store_after_frame [OF fixed, of "newDetections pd ed frame now"] fixed_split [OF fixed]
  show ?thesis unfolding st' by blast
qed

theorem store_order_after_frame_witness:
  "reachable (storeAfter [frameA] init_store)
   \<and> processDetections (Some personsFar) (Some emptyPpe) 10 1500 (storeAfter [frameA] init_store)
     = Inr (storeAfter [frameA, frameFar] init_store)
   \<and> (\<exists>added. detections (storeAfter [frameA, frameFar] init_store) =
         [personA] @ added @ [maskA] @ [] \<and> subseq added [personFar])"
proof -
  have 1: "processDetections (Some personsFar) (Some emptyPpe) 10 1500 (storeAfter [frameA] init_store)
     = Inr (storeAfter [frameA, frameFar] init_store)"
    by (simp add: example_defs eval_defs)
  have r: "reachable (storeAfter [frameA] init_store)"
    by (rule reachable_storeAfter) (rule reach_init)
  have new: "newDetections personsFar emptyPpe 10 1500 = [personFar]"
    by (simp add: example_defs eval_defs)
  have p: "isPerson personA" "isPerson personFar" "\<not> isPerson maskA"
    by (simp_all add: example_defs isPerson_def)
  from store_order_after_frame [OF r, of personsFar emptyPpe 10 1500 "storeAfter [frameA, frameFar] init_store"]
    1
  have "\<exists>added. detections (storeAfter [frameA, frameFar] init_store) =
      filter isPerson (detections (storeAfter [frameA] init_store)) @ added @
      filter (\<lambda>d. \<not> isPerson d) (detections (storeAfter [frameA] init_store)) @
      filter (\<lambda>d. \<not> isPerson d) (newDetections personsFar emptyPpe 10 1500)
      \<and> subseq added (filter isPerson (newDetections personsFar emptyPpe 10 1500))"
    by auto
  then show ?thesis using r 1 by (simp add: new detections_frameA p)
qed

section \<open>Rectangles of zero area\<close>

lemma xOverlap_zero_width: "d_w p = 0 \<Longrightarrow> xOverlap f p = 0"
  by (simp add: xOverlap_def min_def max_def)

lemma yOverlap_zero_height: "d_h p = 0 \<Longrightarrow> yOverlap f p = 0"
  by (simp add: yOverlap_def min_def max_def)

lemma overlap_zero_area: "d_w p * d_h p = 0 \<Longrightarrow> xOverlap f p * yOverlap f p = 0"
  using xOverlap_zero_width [of p f] yOverlap_zero_height [of p f] by auto

lemma iou_zero_area: "zeroArea p \<Longrightarrow> iou f p = NaN"
  using overlap_zero_area [of p f] by (simp add: zeroArea_def iou_def js_div_def)

lemma not_overlap_zero_area: "zeroArea p \<Longrightarrow> \<not> overlap filtered p"
  by (simp add: overlap_def list_ex_iff iou_zero_area)

lemma pushPersons_zero_area:
  "filter zeroArea (pushPersons filtered ps) = filter zeroArea filtered @ filter zeroArea ps"
proof (induction ps arbitrary: filtered)
  case Nil
  show ?case by simp
next
  case (Cons p ps)
  show ?case
  proof (cases "overlap filtered p")
    case True
    then have "\<not> zeroArea p" using not_overlap_zero_area by blast
    then show ?thesis using True Cons.IH [of filtered] by simp
  next
    case False
    then show ?thesis using Cons.IH [of "filtered @ [p]"] by simp
  qed
qed

lemma filter_person_zero:
  "filter (\<lambda>d. isPerson d \<and> zeroArea d) xs = filter isPerson (filter zeroArea xs)"
  by (induction xs) auto

lemma zero_area_persons_kept:
  "filter (\<lambda>d. isPerson d \<and> zeroArea d) (filterDuplicatePersons ds) =
   filter (\<lambda>d. isPerson d \<and> zeroArea d) ds"
proof -
  have "filter (\<lambda>d. isPerson d \<and> zeroArea d) (filterDuplicatePersons ds) =
        filter (\<lambda>d. isPerson d \<and> zeroArea d) (pushPersons [] (filter isPerson ds))"
    by (simp add: filterDuplicatePersons_def Let_def)
  also have "\<dots> = filter isPerson (filter zeroArea (pushPersons [] (filter isPerson ds)))"
    by (rule filter_person_zero)
  also have "\<dots> = filter isPerson (filter zeroArea (filter isPerson ds))"
    by (simp only: pushPersons_zero_area filter.simps append_Nil)
  also have "\<dots> = filter (\<lambda>d. isPerson d \<and> zeroArea d) ds"
    by (induction ds) auto
  finally show ?thesis .
qed

lemma detections_frameBare: "detections (storeAfter [frameBare] init_store) = [bare0, bare1]"
  by (simp add: frameBare_def bare0_def bare1_def eval_defs)

lemma count_list_filter: "Q b \<Longrightarrow> count_list (filter Q xs) b = count_list xs b"
  by (induction xs) auto

text \<open>
  Claim C10. A person detection whose rectangle has zero area is never treated as a
  duplicate. Against every detection \<open>f\<close> the ratio is \<open>0 / 0\<close>, which is NaN, and the
  comparison with 0.7 is false, so no list \<open>filtered\<close> overlaps it.
  \<open>filterDuplicatePersons\<close> keeps every zero-area person of its input, each as often as it
  occurs, and so does a call of \<open>processDetections\<close>, whatever the store holds. A raw
  person entry with neither a box nor \<open>w\<close> and \<open>h\<close>, and a score that passes the filter,
  yields such a detection.
\<close>

theorem zero_area_person_always_appended:
  "(zeroArea p \<longrightarrow> iou f p = NaN \<and> \<not> overlap filtered p)
   \<and> filter (\<lambda>d. isPerson d \<and> zeroArea d) (filterDuplicatePersons ds) =
       filter (\<lambda>d. isPerson d \<and> zeroArea d) ds
   \<and> (processDetections (Some pd) (Some ed) frame now st = Inr st' \<and>
        B \<in> set (newDetections pd ed frame now) \<and> isPerson B \<and> zeroArea B \<longrightarrow>
          B \<in> set (detections st') \<and>
          count_list (detections st') B =
            count_list (detections st) B + count_list (newDetections pd ed frame now) B)
   \<and> (p_box person = None \<and> p_w person = None \<and> p_h person = None \<and>
        MIN_CONFIDENCE \<le> score_or_0 (p_score person) \<longrightarrow>
          (\<exists>d. personDetection frame now (index, person) = Some d \<and> isPerson d \<and> zeroArea d))"
proof -
  let ?Z = "\<lambda>d. isPerson d \<and> zeroArea d"
  have a: "zeroArea p \<longrightarrow> iou f p = NaN \<and> \<not> overlap filtered p"
    by (simp add: iou_zero_area not_overlap_zero_area)
  have b: "filter ?Z (filterDuplicatePersons ds) = filter ?Z ds" for ds
    by (rule zero_area_persons_kept)
  have c: "B \<in> set (detections st') \<and>
          count_list (detections st') B =
            count_list (detections st) B + count_list (newDetections pd ed frame now) B"
    if call: "processDetections (Some pd) (Some ed) frame now st = Inr st'"
      and B: "B \<in> set (newDetections pd ed frame now)" "?Z B"
  proof -
    let ?all = "detections st @ newDetections pd ed frame now"
    have st': "detections st' = filterDuplicatePersons ?all"
      using call by (auto simp: processDetections_Inr)
    have "count_list (detections st') B = count_list (filter ?Z (detections st')) B"
      using B(2) count_list_filter [of ?Z B] by simp
    also have "\<dots> = count_list (filter ?Z ?all) B" unfolding st' by (simp only: b)
    also have "\<dots> = count_list ?all B" using B(2) count_list_filter [of ?Z B] by simp
    finally have cnt: "count_list (detections st') B =
        count_list (detections st) B + count_list (newDetections pd ed frame now) B"
      by simp
    have "count_list (newDetections pd ed frame now) B \<noteq> 0"
      using B(1) by (simp add: count_list_0_iff)
    then have "count_list (detections st') B \<noteq> 0" using cnt by simp
    then have "B \<in> set (detections st')" by (simp add: count_list_0_iff)
    then show ?thesis using cnt by simp
  qed
  have d: "\<exists>d. personDetection frame now (index, person) = Some d \<and> isPerson d \<and> zeroArea d"
    if "p_box person = None" "p_w person = None" "p_h person = None"
      "MIN_CONFIDENCE \<le> score_or_0 (p_score person)"
    using that by (simp add: personDetection_def isPerson_def zeroArea_def)
  show ?thesis using a b c d by blast
qed

theorem zero_area_person_always_appended_witness:
  "zeroArea bare1 \<and> iou bare0 bare1 = NaN \<and> \<not> overlap [bare0] bare1
   \<and> processDetections (Some personsBare) (Some emptyPpe) 0 1000 init_store
       = Inr (storeAfter [frameBare] init_store)
   \<and> bare1 \<in> set (newDetections personsBare emptyPpe 0 1000)
   \<and> isPerson bare1
   \<and> detections (storeAfter [frameBare] init_store) = [bare0, bare1]
   \<and> count_list (detections (storeAfter [frameBare] init_store)) bare1 = 1
   \<and> p_box (barePerson (9 / 10)) = None \<and> p_w (barePerson (9 / 10)) = None
   \<and> p_h (barePerson (9 / 10)) = None \<and> MIN_CONFIDENCE \<le> score_or_0 (p_score (barePerson (9 / 10)))
   \<and> personDetection 0 1000 (1, barePerson (9 / 10)) = Some bare1"
proof -
  have z: "zeroArea bare1" by (simp add: zeroArea_def bare1_def)
  have p: "isPerson bare1" by (simp add: isPerson_def bare1_def)
  have call: "processDetections (Some personsBare) (Some emptyPpe) 0 1000 init_store
       = Inr (storeAfter [frameBare] init_store)"
    by (simp add: frameBare_def eval_defs)
  have call': "processDetections (Some personsBare) (Some emptyPpe) 0 1000 init_store
       = Inr (storeAfter [frameBare] init_store)"
    by (simp add: frameBare_def eval_defs)
  have new: "newDetections personsBare emptyPpe 0 1000 = [bare0, bare1]"
    by (simp add: frameBare_def bare0_def bare1_def eval_defs)
  have ne: "bare0 \<noteq> bare1" by (simp add: bare0_def bare1_def)
  have raw: "p_box (barePerson (9 / 10)) = None" "p_w (barePerson (9 / 10)) = None"
    "p_h (barePerson (9 / 10)) = None" "MIN_CONFIDENCE \<le> score_or_0 (p_score (barePerson (9 / 10)))"
    by (simp_all add: barePerson_def MIN_CONFIDENCE_def score_or_0_def)
  have pd1: "personDetection 0 1000 (1, barePerson (9 / 10)) = Some bare1"
    by (simp add: bare1_def eval_defs)
  have old: "count_list (detections init_store) bare1 = 0" by (simp add: init_store_def)
  from zero_area_person_always_appended
    [of bare1 bare0 "[bare0]" "[]" personsBare emptyPpe 0 1000 init_store "storeAfter [frameBare] init_store"
      bare1 "barePerson (9 / 10)" 1]
    z p call new
  have "iou bare0 bare1 = NaN \<and> \<not> overlap [bare0] bare1
     \<and> count_list (detections (storeAfter [frameBare] init_store)) bare1 =
        count_list (detections init_store) bare1 + count_list [bare0, bare1] bare1"
    by simp
  then show ?thesis using z p call' new raw pd1 ne old
    by (simp add: detections_frameBare)
qed

section \<open>Empty and partial responses\<close>

text \<open>
  Claim C4. When \<open>predictions?.[0]?.persons\<close> of the person response is absent or an empty
  array, and \<open>predictions?.[0]?.ppe_detections\<close> of the PPE response is absent or an empty
  array, the call does not throw, it produces no detection and no alert, and the store the
  component holds is what it was.
\<close>

theorem empty_responses_add_nothing:
  assumes "persons_of pd = None \<or> persons_of pd = Some []"
    and "ppe_detections_of ed = None \<or> ppe_detections_of ed = Some []"
  shows "newDetections pd ed frame now = [] \<and> frameAlerts pd ed frame now = []
       \<and> processDetections (Some pd) (Some ed) frame now st =
           Inr \<lparr>detections = filterDuplicatePersons (detections st), alerts = alerts st\<rparr>
       \<and> (reachable st \<longrightarrow> processDetections (Some pd) (Some ed) frame now st = Inr st)"
proof -
  have new: "newDetections pd ed frame now = []"
    using assms by (auto simp: newDetections_def newPersons_def newEPIs_def List.map_filter_def
        List.enumerate_eq_zip)
  have al: "frameAlerts pd ed frame now = []"
    by (simp add: frameAlerts_def new List.map_filter_def List.enumerate_eq_zip)
  have call: "processDetections (Some pd) (Some ed) frame now st =
           Inr \<lparr>detections = filterDuplicatePersons (detections st), alerts = alerts st\<rparr>"
    by (simp add: processDetections_def new al)
  have "processDetections (Some pd) (Some ed) frame now st = Inr st" if "reachable st"
    using call reachable_fixed [OF that] by simp
  then show ?thesis using new al call by blast
qed

theorem empty_responses_add_nothing_witness:
  "(persons_of noPredictions = None \<or> persons_of noPredictions = Some [])
   \<and> (ppe_detections_of emptyPpe = None \<or> ppe_detections_of emptyPpe = Some [])
   \<and> reachable (storeAfter [frameA] init_store)
   \<and> processDetections (Some noPredictions) (Some emptyPpe) 10 1500 (storeAfter [frameA] init_store)
       = Inr (storeAfter [frameA] init_store)
   \<and> newDetections noPredictions emptyPpe 10 1500 = []
   \<and> frameAlerts noPredictions emptyPpe 10 1500 = []"
proof -
  have 1: "persons_of noPredictions = None \<or> persons_of noPredictions = Some []"
    by (simp add: persons_of_def noPredictions_def)
  have 2: "ppe_detections_of emptyPpe = None \<or> ppe_detections_of emptyPpe = Some []"
    by (simp add: ppe_detections_of_def emptyPpe_def ppeResponse_def)
  have r: "reachable (storeAfter [frameA] init_store)"
    by (rule reachable_storeAfter) (rule reach_init)
  note inst = empty_responses_add_nothing [OF 1 2, of 10 1500 "storeAfter [frameA] init_store"]
  from inst r have
    "processDetections (Some noPredictions) (Some emptyPpe) 10 1500 (storeAfter [frameA] init_store)
       = Inr (storeAfter [frameA] init_store)"
    by blast
  moreover from inst have "newDetections noPredictions emptyPpe 10 1500 = []"
    and "frameAlerts noPredictions emptyPpe 10 1500 = []"
    by blast+
  ultimately show ?thesis using 1 2 r by blast
qed

section \<open>Identifiers\<close>

lemma show_nat_small: "n < 10 \<Longrightarrow> show_nat n = [char_of (48 + n)]"
  by (subst show_nat.simps) simp

lemma show_nat_large:
  "\<not> n < 10 \<Longrightarrow> show_nat n = show_nat (n div 10) @ [char_of (48 + n mod 10)]"
  by (subst show_nat.simps) simp

lemma show_nat_not_Nil: "show_nat n \<noteq> []"
  by (cases "n < 10") (simp_all add: show_nat_small show_nat_large)

lemma length_show_nat_large: "\<not> n < 10 \<Longrightarrow> 2 \<le> length (show_nat n)"
proof -
  assume large: "\<not> n < 10"
  obtain c cs where "show_nat (n div 10) = c # cs"
    using show_nat_not_Nil [of "n div 10"] by (cases "show_nat (n div 10)") auto
  then show ?thesis using large by (simp add: show_nat_large)
qed

lemma digit_inj: "a < 10 \<Longrightarrow> b < 10 \<Longrightarrow> char_of (48 + a) = char_of (48 + b) \<Longrightarrow> a = (b::nat)"
  by simp

lemma show_nat_inj: "show_nat m = show_nat n \<Longrightarrow> m = n"
proof (induction m arbitrary: n rule: show_nat.induct)
  case (1 m)
  show ?case
  proof (cases "m < 10")
    case True
    show ?thesis
    proof (cases "n < 10")
      case True
      with \<open>m < 10\<close> "1.prems" show ?thesis by (simp add: show_nat_small)
    next
      case False
      have "length (show_nat m) = 1" using \<open>m < 10\<close> by (simp add: show_nat_small)
      with length_show_nat_large [OF False] "1.prems" show ?thesis by simp
    qed
  next
    case False
    show ?thesis
    proof (cases "n < 10")
      case True
      then have "length (show_nat n) = 1" by (simp add: show_nat_small)
      with length_show_nat_large [OF False] "1.prems" show ?thesis by simp
    next
      case n: False
      from "1.prems" False n have
        eq: "show_nat (m div 10) = show_nat (n div 10)"
        and d: "char_of (48 + m mod 10) = char_of (48 + n mod 10)"
        by (simp_all add: show_nat_large)
      have "m div 10 = n div 10" using "1.IH" [OF False eq] .
      moreover have "m mod 10 = n mod 10"
        using d by (intro digit_inj) simp_all
      ultimately show ?thesis by (metis div_mult_mod_eq)
    qed
  qed
qed

lemma personId_inj: "personId frame i = personId frame j \<Longrightarrow> i = j"
  by (simp add: personId_def show_nat_inj)


section \<open>What one call produces\<close>

lemma set_map_filter: "set (List.map_filter f xs) = {y. \<exists>x \<in> set xs. f x = Some y}"
  by (induction xs) (auto simp: List.map_filter_def)

lemma personDetection_None_iff:
  "personDetection frame now ip = None \<longleftrightarrow> score_or_0 (p_score (snd ip)) < MIN_CONFIDENCE"
  by (simp add: personDetection_def Let_def)

lemma personDetection_Some:
  assumes "personDetection frame now ip = Some d"
  shows "isPerson d" and "d_id d = personId frame (fst ip)"
    and "d_confidence d = score_or_0 (p_score (snd ip))" and "MIN_CONFIDENCE \<le> d_confidence d"
  using assms by (auto simp: personDetection_def Let_def isPerson_def personId_def split: if_splits)

lemma epiMapping_not_person: "epiMapping k \<noteq> Some (JStr ''person'')"
  by (simp add: epiMapping_def)

lemma epiDetection_None_iff:
  "epiDetection frame now ie = None \<longleftrightarrow>
     \<not> labelMapped (snd ie) \<or> score_or_0 (e_score (snd ie)) < MIN_CONFIDENCE"
  by (auto simp: epiDetection_def labelMapped_def Let_def split: option.splits)

lemma epiDetection_Some:
  assumes "epiDetection frame now ie = Some d"
  shows "\<not> isPerson d" and "d_confidence d = score_or_0 (e_score (snd ie))"
    and "MIN_CONFIDENCE \<le> d_confidence d"
  using assms epiMapping_not_person
  by (auto simp: epiDetection_def Let_def isPerson_def split: option.splits if_splits)

lemma newPersons_persons: "d \<in> set (newPersons pd frame now) \<Longrightarrow> isPerson d"
  by (auto simp: newPersons_def set_map_filter split: option.splits dest: personDetection_Some(1))

lemma newEPIs_not_persons: "d \<in> set (newEPIs ed frame now) \<Longrightarrow> \<not> isPerson d"
  by (auto simp: newEPIs_def set_map_filter split: option.splits dest: epiDetection_Some(1))

lemma persons_newDetections:
  "filter isPerson (newDetections pd ed frame now) = newPersons pd frame now"
proof -
  have "filter isPerson (newPersons pd frame now) = newPersons pd frame now"
    by (rule filter_True) (simp add: newPersons_persons)
  moreover have "filter isPerson (newEPIs ed frame now) = []"
    using newEPIs_not_persons by (auto simp: filter_empty_conv)
  ultimately show ?thesis by (simp add: newDetections_def)
qed

lemma confidence_newDetections:
  "d \<in> set (newDetections pd ed frame now) \<Longrightarrow> MIN_CONFIDENCE \<le> d_confidence d"
  by (auto simp: newDetections_def newPersons_def newEPIs_def set_map_filter
      split: option.splits dest: personDetection_Some(4) epiDetection_Some(3))

text \<open>The alert pushed for the person at position \<open>personIndex\<close>, when something is missing.\<close>

lemma personAlert_Some:
  "missing \<noteq> [] \<Longrightarrow>
   personAlert missing frame now ip =
     Some \<lparr> a_id = ''alert_'' @ show_nat frame @ ''_'' @ show_nat (fst ip),
            a_personId = d_id (snd ip),
            a_missingEPIs = map epiLabel missing,
            a_severity = severityOf missing,
            a_frame = frame,
            a_timestamp = now \<rparr>"
  by (simp add: personAlert_def Let_def)

lemma personAlert_None: "personAlert [] frame now ip = None"
  by (simp add: personAlert_def Let_def)

lemma frameAlerts_none:
  "missingEPIs ed frame now = [] \<Longrightarrow> frameAlerts pd ed frame now = []"
  by (simp add: frameAlerts_def Let_def List.map_filter_def personAlert_None)

lemma frameAlerts_some:
  assumes "missingEPIs ed frame now \<noteq> []"
  shows "frameAlerts pd ed frame now =
           map (\<lambda>ip. the (personAlert (missingEPIs ed frame now) frame now ip))
             (List.enumerate 0 (newPersons pd frame now))"
  using assms
  by (simp add: frameAlerts_def Let_def List.map_filter_def personAlert_Some persons_newDetections)

lemma personIds_frameAlerts:
  assumes "missingEPIs ed frame now \<noteq> []"
  shows "map a_personId (frameAlerts pd ed frame now) = map d_id (newPersons pd frame now)"
proof -
  have "map a_personId (frameAlerts pd ed frame now) =
        map (d_id \<circ> snd) (List.enumerate 0 (newPersons pd frame now))"
    using assms by (simp add: frameAlerts_some personAlert_Some comp_def)
  also have "\<dots> = map d_id (map snd (List.enumerate 0 (newPersons pd frame now)))"
    by (simp only: map_map)
  also have "\<dots> = map d_id (newPersons pd frame now)"
    by (simp only: map_snd_enumerate)
  finally show ?thesis .
qed

lemma alert_fields:
  assumes "a \<in> set (frameAlerts pd ed frame now)"
  shows "missingEPIs ed frame now \<noteq> []"
    and "a_severity a = severityOf (missingEPIs ed frame now)"
    and "a_missingEPIs a = map epiLabel (missingEPIs ed frame now)"
    and "a_frame a = frame"
proof -
  show ne: "missingEPIs ed frame now \<noteq> []"
    using assms frameAlerts_none [of ed frame now pd] by auto
  then obtain ip where "a = the (personAlert (missingEPIs ed frame now) frame now ip)"
    using assms by (auto simp: frameAlerts_some)
  then have a: "a = \<lparr> a_id = ''alert_'' @ show_nat frame @ ''_'' @ show_nat (fst ip),
            a_personId = d_id (snd ip),
            a_missingEPIs = map epiLabel (missingEPIs ed frame now),
            a_severity = severityOf (missingEPIs ed frame now),
            a_frame = frame,
            a_timestamp = now \<rparr>"
    using ne by (simp add: personAlert_Some)
  show "a_severity a = severityOf (missingEPIs ed frame now)" by (simp add: a)
  show "a_missingEPIs a = map epiLabel (missingEPIs ed frame now)" by (simp add: a)
  show "a_frame a = frame" by (simp add: a)
qed

lemma ids_newPersons:
  "map d_id (newPersons pd frame now) =
     map (personId frame)
       (map fst (filter (\<lambda>ip. personDetection frame now ip \<noteq> None)
          (List.enumerate 0 (case persons_of pd of None \<Rightarrow> [] | Some ps \<Rightarrow> ps))))"
proof (cases "persons_of pd")
  case None
  then show ?thesis by (simp add: newPersons_def)
next
  case (Some ps)
  have "d_id (the (personDetection frame now ip)) = personId frame (fst ip)"
    if "personDetection frame now ip \<noteq> None" for ip
    using that personDetection_Some(2) [of frame now ip] by auto
  then show ?thesis
    by (simp add: newPersons_def Some List.map_filter_def)
qed

lemma distinct_ids_newPersons: "distinct (map d_id (newPersons pd frame now))"
proof -
  let ?raw = "case persons_of pd of None \<Rightarrow> [] | Some ps \<Rightarrow> ps"
  let ?kept = "filter (\<lambda>ip. personDetection frame now ip \<noteq> None) (List.enumerate 0 ?raw)"
  have "distinct (map fst (List.enumerate 0 ?raw))" by simp
  then have "distinct (map fst ?kept)" by (rule distinct_map_filter)
  moreover have "inj_on (personId frame) (set (map fst ?kept))"
    by (rule inj_onI) (rule personId_inj)
  ultimately have "distinct (map (personId frame) (map fst ?kept))"
    by (simp only: distinct_map) 
  then show ?thesis by (simp only: ids_newPersons)
qed

lemma alerts_after_call:
  "processDetections (Some pd) (Some ed) frame now st = Inr st' \<Longrightarrow>
   alerts st' = alerts st @ frameAlerts pd ed frame now"
  by (auto simp: processDetections_Inr)

lemma length_missingEPIs: "length (missingEPIs ed frame now) \<le> 3"
proof -
  have "length (missingEPIs ed frame now) \<le> length requiredEPIs"
    unfolding missingEPIs_def by (rule length_filter_le)
  then show ?thesis by (simp add: requiredEPIs_def)
qed


lemma snd_filter_enumerate:
  "map snd (filter (\<lambda>ip. P (snd ip)) (List.enumerate n xs)) = filter P xs"
  by (induction xs arbitrary: n) simp_all

lemma confidences_newPersons:
  "map d_confidence (newPersons pd frame now) =
     filter (\<lambda>c. MIN_CONFIDENCE \<le> c)
       (map (\<lambda>p. score_or_0 (p_score p)) (case persons_of pd of None \<Rightarrow> [] | Some ps \<Rightarrow> ps))"
proof (cases "persons_of pd")
  case None
  then show ?thesis by (simp add: newPersons_def)
next
  case (Some ps)
  let ?keep = "\<lambda>p. MIN_CONFIDENCE \<le> score_or_0 (p_score p)"
  have conf: "d_confidence (the (personDetection frame now ip)) = score_or_0 (p_score (snd ip))"
    if "personDetection frame now ip \<noteq> None" for ip
    using that personDetection_Some(3) [of frame now ip] by auto
  have "map d_confidence (newPersons pd frame now) =
        map (\<lambda>ip. score_or_0 (p_score (snd ip)))
          (filter (\<lambda>ip. ?keep (snd ip)) (List.enumerate 0 ps))"
    by (simp add: newPersons_def Some List.map_filter_def conf personDetection_None_iff not_less)
  also have "\<dots> = map (\<lambda>p. score_or_0 (p_score p))
          (map snd (filter (\<lambda>ip. ?keep (snd ip)) (List.enumerate 0 ps)))"
    by (simp add: comp_def)
  also have "\<dots> = map (\<lambda>p. score_or_0 (p_score p)) (filter ?keep ps)"
    using snd_filter_enumerate [of ?keep 0 ps] by simp
  also have "\<dots> = filter (\<lambda>c. MIN_CONFIDENCE \<le> c) (map (\<lambda>p. score_or_0 (p_score p)) ps)"
    by (simp add: filter_map comp_def)
  finally show ?thesis by (simp add: Some)
qed

lemma confidences_newEPIs:
  "map d_confidence (newEPIs ed frame now) =
     filter (\<lambda>c. MIN_CONFIDENCE \<le> c)
       (map (\<lambda>e. score_or_0 (e_score e))
          (filter labelMapped (case ppe_detections_of ed of None \<Rightarrow> [] | Some es \<Rightarrow> es)))"
proof (cases "ppe_detections_of ed")
  case None
  then show ?thesis by (simp add: newEPIs_def)
next
  case (Some es)
  let ?keep = "\<lambda>e. labelMapped e \<and> MIN_CONFIDENCE \<le> score_or_0 (e_score e)"
  have conf: "d_confidence (the (epiDetection frame now ie)) = score_or_0 (e_score (snd ie))"
    if "epiDetection frame now ie \<noteq> None" for ie
    using that epiDetection_Some(2) [of frame now ie] by auto
  have "map d_confidence (newEPIs ed frame now) =
        map (\<lambda>ie. score_or_0 (e_score (snd ie)))
          (filter (\<lambda>ie. ?keep (snd ie)) (List.enumerate 0 es))"
    by (simp add: newEPIs_def Some List.map_filter_def conf epiDetection_None_iff not_less)
  also have "\<dots> = map (\<lambda>e. score_or_0 (e_score e))
          (map snd (filter (\<lambda>ie. ?keep (snd ie)) (List.enumerate 0 es)))"
    by (simp add: comp_def)
  also have "\<dots> = map (\<lambda>e. score_or_0 (e_score e)) (filter ?keep es)"
    using snd_filter_enumerate [of ?keep 0 es] by simp
  also have "\<dots> = filter (\<lambda>c. MIN_CONFIDENCE \<le> c)
          (map (\<lambda>e. score_or_0 (e_score e)) (filter labelMapped es))"
    by (simp add: filter_map comp_def conj_commute)
  finally show ?thesis by (simp add: Some)
qed

section \<open>Claims about one call\<close>

text \<open>
  Claim C2. A raw entry yields a detection only if its score (0 when absent) is at least
  0.5. A person entry is discarded exactly when its score is below 0.5. A PPE entry is
  discarded exactly when its label is not found in \<open>epiMapping\<close> or its score is below 0.5:
  the confidence test itself rejects the scores below 0.5 and no others. Every detection
  produced has confidence at least 0.5, the confidences of the persons produced are the
  raw scores that are at least 0.5, in order, and likewise for the PPE entries whose label
  is mapped. An entry with score exactly 0.5 passes the confidence test and is retained.
\<close>

theorem confidence_filter_boundary:
  "(personDetection frame now (index, person) = None \<longleftrightarrow> score_or_0 (p_score person) < 1 / 2)
   \<and> (epiDetection frame now (index, epi) = None \<longleftrightarrow>
        \<not> labelMapped epi \<or> score_or_0 (e_score epi) < 1 / 2)
   \<and> (\<forall>d \<in> set (newDetections pd ed frame now). 1 / 2 \<le> d_confidence d)
   \<and> map d_confidence (newPersons pd frame now) =
        filter (\<lambda>c. 1 / 2 \<le> c)
          (map (\<lambda>p. score_or_0 (p_score p)) (case persons_of pd of None \<Rightarrow> [] | Some ps \<Rightarrow> ps))
   \<and> map d_confidence (newEPIs ed frame now) =
        filter (\<lambda>c. 1 / 2 \<le> c)
          (map (\<lambda>e. score_or_0 (e_score e))
             (filter labelMapped (case ppe_detections_of ed of None \<Rightarrow> [] | Some es \<Rightarrow> es)))
   \<and> (p_score person = Some (1 / 2) \<longrightarrow>
        (\<exists>d. personDetection frame now (index, person) = Some d \<and> d_confidence d = 1 / 2))
   \<and> (e_score epi = Some (1 / 2) \<and> labelMapped epi \<longrightarrow>
        (\<exists>d. epiDetection frame now (index, epi) = Some d \<and> d_confidence d = 1 / 2))"
proof -
  have half: "MIN_CONFIDENCE = 1 / 2" by (simp add: MIN_CONFIDENCE_def)
  have a: "personDetection frame now (index, person) = None \<longleftrightarrow>
           score_or_0 (p_score person) < 1 / 2"
    using personDetection_None_iff [of frame now "(index, person)"] by (simp add: half)
  have b: "epiDetection frame now (index, epi) = None \<longleftrightarrow>
           \<not> labelMapped epi \<or> score_or_0 (e_score epi) < 1 / 2"
    using epiDetection_None_iff [of frame now "(index, epi)"] by (simp add: half)
  have c: "\<forall>d \<in> set (newDetections pd ed frame now). 1 / 2 \<le> d_confidence d"
    using confidence_newDetections [of _ pd ed frame now] by (simp add: half)
  have d: "\<exists>d. personDetection frame now (index, person) = Some d \<and> d_confidence d = 1 / 2"
    if "p_score person = Some (1 / 2)"
  proof -
    have "personDetection frame now (index, person) \<noteq> None"
      using a that by (simp add: score_or_0_def)
    then obtain d where d: "personDetection frame now (index, person) = Some d" by auto
    from personDetection_Some(3) [OF d] that have "d_confidence d = 1 / 2"
      by (simp add: score_or_0_def)
    with d show ?thesis by blast
  qed
  have e: "\<exists>d. epiDetection frame now (index, epi) = Some d \<and> d_confidence d = 1 / 2"
    if "e_score epi = Some (1 / 2)" "labelMapped epi"
  proof -
    have "epiDetection frame now (index, epi) \<noteq> None"
      using b that by (simp add: score_or_0_def)
    then obtain d where d: "epiDetection frame now (index, epi) = Some d" by auto
    from epiDetection_Some(2) [OF d] that have "d_confidence d = 1 / 2"
      by (simp add: score_or_0_def)
    with d show ?thesis by blast
  qed
  show ?thesis
    using a b c d e confidences_newPersons [of pd frame now] confidences_newEPIs [of ed frame now]
    unfolding half by blast
qed


theorem confidence_filter_boundary_witness:
  "p_score (boxedPerson (1 / 2) (10, 10, 50, 90)) = Some (1 / 2)
   \<and> e_score (labelled ''GOGGLES'' (1 / 2)) = Some (1 / 2)
   \<and> labelMapped (labelled ''GOGGLES'' (1 / 2))
   \<and> (\<exists>d. personDetection 20 2000 (1, boxedPerson (1 / 2) (10, 10, 50, 90)) = Some d
           \<and> d_confidence d = 1 / 2)
   \<and> (\<exists>d. epiDetection 20 2000 (1, labelled ''GOGGLES'' (1 / 2)) = Some d
           \<and> d_confidence d = 1 / 2)
   \<and> epiDetection 20 2000 (2, labelled ''hearing'' (49 / 100)) = None
   \<and> map d_confidence (newEPIs ppeMedium 20 2000) = [8 / 10, 1 / 2]"
proof -
  let ?person = "boxedPerson (1 / 2) (10, 10, 50, 90)"
  let ?epi = "labelled ''GOGGLES'' (1 / 2)"
  let ?low = "labelled ''hearing'' (49 / 100)"
  have 1: "p_score ?person = Some (1 / 2)" by (simp add: boxedPerson_def)
  have 2: "e_score ?epi = Some (1 / 2)" by (simp add: labelled_def)
  have 3: "labelMapped ?epi"
    by (simp add: labelMapped_def labelled_def toLowerCase_def epiMapping_def)
  have 4: "score_or_0 (e_score ?low) < 1 / 2" by (simp add: labelled_def score_or_0_def)
  have raw: "ppe_detections_of ppeMedium =
      Some [labelled ''Mask'' (8 / 10), labelled ''GOGGLES'' (1 / 2), labelled ''hearing'' (49 / 100)]"
    by (simp add: ppeMedium_def ppeResponse_def ppe_detections_of_def)
  have mapped: "labelMapped (labelled ''Mask'' sc)" "labelMapped (labelled ''hearing'' sc)"
    "labelMapped (labelled ''GOGGLES'' sc)" for sc
    by (simp_all add: labelMapped_def labelled_def toLowerCase_def epiMapping_def)
  have scores: "score_or_0 (e_score (labelled l sc)) = sc" for l sc
    by (simp add: labelled_def score_or_0_def)
  note inst = confidence_filter_boundary
    [of 20 2000 1 ?person ?epi "personsA" ppeMedium]
  note low = confidence_filter_boundary
    [of 20 2000 2 ?person ?low  "personsA" ppeMedium]
  from inst 1 have a: "\<exists>d. personDetection 20 2000 (1, ?person) = Some d \<and> d_confidence d = 1 / 2"
    by blast
  from inst 2 3 have b: "\<exists>d. epiDetection 20 2000 (1, ?epi) = Some d \<and> d_confidence d = 1 / 2"
    by blast
  from low 4 have c: "epiDetection 20 2000 (2, ?low) = None" by blast
  from inst have "map d_confidence (newEPIs ppeMedium 20 2000) =
        filter (\<lambda>c. 1 / 2 \<le> c)
          (map (\<lambda>e. score_or_0 (e_score e))
             (filter labelMapped (case ppe_detections_of ppeMedium of None \<Rightarrow> [] | Some es \<Rightarrow> es)))"
    by blast
  then have d: "map d_confidence (newEPIs ppeMedium 20 2000) = [8 / 10, 1 / 2]"
    by (simp add: raw mapped scores)
  show ?thesis using 1 2 3 a b c d by blast
qed

text \<open>
  Claim C3. One call emits no alert when no required class is missing. Otherwise it emits
  one alert for each person detection that passed the confidence filter, in order, each
  naming that person's identifier; the identifiers of the persons of one frame are
  distinct, so each person has exactly one alert. Every alert has severity medium when
  exactly one required class is missing and high when two or more are; none has severity
  low. The alerts emitted are what the call appends to the stored alerts.
\<close>

theorem one_alert_per_person:
  "(missingEPIs ed frame now = [] \<longrightarrow> frameAlerts pd ed frame now = [])
   \<and> (missingEPIs ed frame now \<noteq> [] \<longrightarrow>
        map a_personId (frameAlerts pd ed frame now) = map d_id (newPersons pd frame now))
   \<and> filter isPerson (newDetections pd ed frame now) = newPersons pd frame now
   \<and> distinct (map d_id (newPersons pd frame now))
   \<and> (\<forall>p \<in> set (newPersons pd frame now).
        length (filter (\<lambda>a. a_personId a = d_id p) (frameAlerts pd ed frame now)) =
          (if missingEPIs ed frame now = [] then 0 else 1))
   \<and> (\<forall>a \<in> set (frameAlerts pd ed frame now).
        (length (missingEPIs ed frame now) = 1 \<longrightarrow> a_severity a = Medium)
        \<and> (2 \<le> length (missingEPIs ed frame now) \<longrightarrow> a_severity a = High)
        \<and> 1 \<le> length (missingEPIs ed frame now)
        \<and> a_severity a \<noteq> Low \<and> a_frame a = frame)
   \<and> (processDetections (Some pd) (Some ed) frame now st = Inr st' \<longrightarrow>
        alerts st' = alerts st @ frameAlerts pd ed frame now)"
proof -
  let ?m = "missingEPIs ed frame now" and ?as = "frameAlerts pd ed frame now"
  let ?ps = "newPersons pd frame now"
  have a: "?m = [] \<longrightarrow> ?as = []" by (simp add: frameAlerts_none)
  have b: "?m \<noteq> [] \<longrightarrow> map a_personId ?as = map d_id ?ps"
    by (simp add: personIds_frameAlerts)
  have c: "distinct (map d_id ?ps)" by (rule distinct_ids_newPersons)
  have d: "length (filter (\<lambda>a. a_personId a = d_id p) ?as) = (if ?m = [] then 0 else 1)"
    if p: "p \<in> set ?ps" for p
  proof (cases "?m = []")
    case True
    then show ?thesis by (simp add: frameAlerts_none)
  next
    case False
    have "length (filter (\<lambda>a. a_personId a = d_id p) ?as) =
          length (filter (\<lambda>i. i = d_id p) (map a_personId ?as))"
      by (simp add: filter_map comp_def)
    also have "\<dots> = length (filter (\<lambda>i. i = d_id p) (map d_id ?ps))"
      using False b by simp
    also have "\<dots> = card ({i. i = d_id p} \<inter> set (map d_id ?ps))"
      using c by (rule distinct_length_filter)
    also have "{i. i = d_id p} \<inter> set (map d_id ?ps) = {d_id p}" using p by auto
    finally show ?thesis using False by simp
  qed
  have e: "(length ?m = 1 \<longrightarrow> a_severity a = Medium) \<and> (2 \<le> length ?m \<longrightarrow> a_severity a = High)
           \<and> 1 \<le> length ?m \<and> a_severity a \<noteq> Low \<and> a_frame a = frame"
    if "a \<in> set ?as" for a
  proof -
    from alert_fields [OF that] have "?m \<noteq> []" "a_severity a = severityOf ?m" "a_frame a = frame"
      by simp_all
    moreover from \<open>?m \<noteq> []\<close> have "1 \<le> length ?m" by (cases ?m) simp_all
    ultimately show ?thesis by (simp add: severityOf_def)
  qed
  have f: "processDetections (Some pd) (Some ed) frame now st = Inr st' \<longrightarrow>
           alerts st' = alerts st @ ?as"
    by (simp add: alerts_after_call)
  show ?thesis using a b c d e f persons_newDetections [of pd ed frame now] by blast
qed


theorem one_alert_per_person_witness:
  "missingEPIs ppeMedium 20 2000 = [''hearing'']
   \<and> map a_personId (frameAlerts personsA ppeMedium 20 2000)
       = [''person_20_0'']
   \<and> map a_severity (frameAlerts personsA ppeMedium 20 2000)
       = [Medium]
   \<and> processDetections (Some personsA) (Some ppeMedium) 20 2000 init_store
       = Inr (storeAfter [frameMedium] init_store)
   \<and> alerts (storeAfter [frameMedium] init_store)
       = frameAlerts personsA ppeMedium 20 2000"
proof -
  have m: "missingEPIs ppeMedium 20 2000 = [''hearing'']"
    by (simp add: frameMedium_def eval_defs)
  have np: "map d_id (newPersons personsA 20 2000) = [''person_20_0'']"
    by (simp add: frameMedium_def eval_defs)
  have call: "processDetections (Some personsA) (Some ppeMedium) 20 2000 init_store
       = Inr (storeAfter [frameMedium] init_store)"
    by (simp add: frameMedium_def eval_defs)
  note inst = one_alert_per_person [of ppeMedium 20 2000 personsA init_store "storeAfter [frameMedium] init_store"]
  from inst m np have ids: "map a_personId (frameAlerts personsA ppeMedium 20 2000) = [''person_20_0'']"
    by simp
  then obtain a where as: "frameAlerts personsA ppeMedium 20 2000 = [a]" by auto
  from inst as m have "a_severity a = Medium" by simp
  then have sev: "map a_severity (frameAlerts personsA ppeMedium 20 2000) = [Medium]" using as by simp
  from inst call have "alerts (storeAfter [frameMedium] init_store) =
      alerts init_store @ frameAlerts personsA ppeMedium 20 2000"
    by simp
  then have al: "alerts (storeAfter [frameMedium] init_store) = frameAlerts personsA ppeMedium 20 2000"
    by (simp add: init_store_def)
  show ?thesis using m ids sev call al by blast
qed

lemma show_nat_0: "show_nat 0 = ''0''"
  by (simp add: show_nat_small char_of_eq_iff)

text \<open>
  Claim C5. A frame with one person of score 0.9 at box [10, 10, 50, 90] and one PPE
  detection \<open>mask\<close> of score 0.8. The required classes not detected are glasses and
  hearing, and the call emits exactly one alert: it names the person of the frame, carries
  the display names of glasses and hearing as its missing classes, and has severity high.
  The call appends this alert, and nothing else, to the stored alerts.
\<close>

theorem scenario_person_with_mask_only:
  "missingEPIs (ppeResponse [labelled ''mask'' (8 / 10)]) frame now = [''glasses'', ''hearing'']
   \<and> map epiLabel [''glasses'', ''hearing''] = [label_glasses, label_hearing]
   \<and> frameAlerts (personResponse [boxedPerson (9 / 10) (10, 10, 50, 90)])
         (ppeResponse [labelled ''mask'' (8 / 10)]) frame now =
       [\<lparr> a_id = ''alert_'' @ show_nat frame @ ''_0'',
           a_personId = ''person_'' @ show_nat frame @ ''_0'',
           a_missingEPIs = [label_glasses, label_hearing],
           a_severity = High,
           a_frame = frame,
           a_timestamp = now \<rparr>]
   \<and> (\<exists>st'. processDetections (Some (personResponse [boxedPerson (9 / 10) (10, 10, 50, 90)]))
               (Some (ppeResponse [labelled ''mask'' (8 / 10)])) frame now st = Inr st'
            \<and> alerts st' = alerts st @
                 [\<lparr> a_id = ''alert_'' @ show_nat frame @ ''_0'',
                     a_personId = ''person_'' @ show_nat frame @ ''_0'',
                     a_missingEPIs = [label_glasses, label_hearing],
                     a_severity = High,
                     a_frame = frame,
                     a_timestamp = now \<rparr>])"
proof -
  have m: "missingEPIs (ppeResponse [labelled ''mask'' (8 / 10)]) frame now =
           [''glasses'', ''hearing'']"
    by (simp add: model_defs)
  have l: "map epiLabel [''glasses'', ''hearing''] = [label_glasses, label_hearing]"
    by (simp add: epiLabel_def)
  have fa: "frameAlerts (personResponse [boxedPerson (9 / 10) (10, 10, 50, 90)])
         (ppeResponse [labelled ''mask'' (8 / 10)]) frame now =
       [\<lparr> a_id = ''alert_'' @ show_nat frame @ ''_0'',
           a_personId = ''person_'' @ show_nat frame @ ''_0'',
           a_missingEPIs = [label_glasses, label_hearing],
           a_severity = High,
           a_frame = frame,
           a_timestamp = now \<rparr>]"
    by (simp add: model_defs show_nat_0)
  show ?thesis using m l fa by (simp add: processDetections_def)
qed

text \<open>
  Claim C9. The alerts of a call are derived from all person detections of the frame and
  are appended to the stored alerts whatever the store holds; no alert is ever removed.
  So there are two frames after which a stored alert names a person that is not in the
  store, and after which there are more alerts than stored persons.
\<close>

theorem alerts_survive_deduplication:
  "(processDetections (Some pd) (Some ed) frame now st = Inr st' \<longrightarrow>
       alerts st' = alerts st @ frameAlerts pd ed frame now
     \<and> (missingEPIs ed frame now \<noteq> [] \<longrightarrow>
          map a_personId (frameAlerts pd ed frame now) =
          map d_id (filter isPerson (newDetections pd ed frame now))))
   \<and> (\<exists>pd1 ed1 f1 n1 pd2 ed2 f2 n2 st1 st2.
        processDetections (Some pd1) (Some ed1) f1 n1 init_store = Inr st1 \<and>
        processDetections (Some pd2) (Some ed2) f2 n2 st1 = Inr st2 \<and>
        (\<exists>a \<in> set (alerts st2). a_personId a \<notin> d_id ` set (detections st2)) \<and>
        length (filter isPerson (detections st2)) < length (alerts st2))"
proof -
  have general: "alerts st' = alerts st @ frameAlerts pd ed frame now
     \<and> (missingEPIs ed frame now \<noteq> [] \<longrightarrow>
          map a_personId (frameAlerts pd ed frame now) =
          map d_id (filter isPerson (newDetections pd ed frame now)))"
    if "processDetections (Some pd) (Some ed) frame now st = Inr st'"
    using that by (simp add: alerts_after_call personIds_frameAlerts persons_newDetections)
  let ?st1 = "storeAfter [frameA] init_store" and ?st2 = "storeAfter [frameA, frameB] init_store"
  have 1: "processDetections (Some personsA) (Some ppeMask) 0 1000 init_store
             = Inr ?st1"
    by (simp add: frameA_def eval_defs)
  have 2: "processDetections (Some personsB) (Some emptyPpe) 10 1500 ?st1
             = Inr ?st2"
    by (simp add: frameA_def frameB_def eval_defs)
  have ids: "map a_personId (alerts ?st2) = [''person_0_0'', ''person_10_0'']"
    by (simp add: frameA_def frameB_def eval_defs)
  have dets: "map d_id (detections ?st2) = [''person_0_0'', ''epi_0_0'']"
    by (simp add: detections_frameAB personA_def maskA_def)
  have persons: "filter isPerson (detections ?st2) = [personA]"
    by (simp add: detections_frameAB personA_def maskA_def isPerson_def)
  from ids obtain a b where ab: "alerts ?st2 = [a, b]" "a_personId b = ''person_10_0''"
    by auto
  have "a_personId b \<notin> d_id ` set (detections ?st2)"
    using dets ab(2) by (simp flip: set_map)
  then have 3: "\<exists>a \<in> set (alerts ?st2). a_personId a \<notin> d_id ` set (detections ?st2)"
    using ab(1) by auto
  have 4: "length (filter isPerson (detections ?st2)) < length (alerts ?st2)"
    using persons ab(1) by simp
  from 1 2 3 4 have "\<exists>pd1 ed1 f1 n1 pd2 ed2 f2 n2 st1 st2.
        processDetections (Some pd1) (Some ed1) f1 n1 init_store = Inr st1 \<and>
        processDetections (Some pd2) (Some ed2) f2 n2 st1 = Inr st2 \<and>
        (\<exists>a \<in> set (alerts st2). a_personId a \<notin> d_id ` set (detections st2)) \<and>
        length (filter isPerson (detections st2)) < length (alerts st2)"
    by blast
  then show ?thesis using general by blast
qed


theorem alerts_survive_deduplication_witness:
  "processDetections (Some personsB) (Some emptyPpe) 10 1500 (storeAfter [frameA] init_store)
     = Inr (storeAfter [frameA, frameB] init_store)
   \<and> missingEPIs emptyPpe 10 1500 \<noteq> []
   \<and> alerts (storeAfter [frameA, frameB] init_store) =
       alerts (storeAfter [frameA] init_store) @
       frameAlerts personsB emptyPpe 10 1500
   \<and> map a_personId (frameAlerts personsB emptyPpe 10 1500)
       = [''person_10_0'']
   \<and> map d_id (detections (storeAfter [frameA, frameB] init_store)) = [''person_0_0'', ''epi_0_0'']"
proof -
  let ?st1 = "storeAfter [frameA] init_store" and ?st2 = "storeAfter [frameA, frameB] init_store"
  have call: "processDetections (Some personsB) (Some emptyPpe) 10 1500 ?st1 = Inr ?st2"
    using step_frameB by simp
  have m: "missingEPIs emptyPpe 10 1500 \<noteq> []"
    by (simp add: frameB_def model_defs)
  have new: "map d_id (filter isPerson (newDetections personsB emptyPpe 10 1500)) = [''person_10_0'']"
    by (simp add: newDetections_frameB personB_def isPerson_def)
  have dets: "map d_id (detections ?st2) = [''person_0_0'', ''epi_0_0'']"
    by (simp add: detections_frameAB personA_def maskA_def)
  note inst = alerts_survive_deduplication [of personsB emptyPpe 10 1500 ?st1 ?st2]
  from inst call have a: "alerts ?st2 = alerts ?st1 @ frameAlerts personsB emptyPpe 10 1500" by blast
  from inst call m have "map a_personId (frameAlerts personsB emptyPpe 10 1500) =
      map d_id (filter isPerson (newDetections personsB emptyPpe 10 1500))" by blast
  then have b: "map a_personId (frameAlerts personsB emptyPpe 10 1500) = [''person_10_0'']"
    using new by simp
  show ?thesis using step_frameB m a b dets by blast
qed

section \<open>Compliance rates\<close>

lemma floor_rat_numeral: "\<lfloor>(numeral a :: rat) / numeral b\<rfloor> = numeral a div numeral b"
  using floor_divide_of_int_eq [of "numeral a" "numeral b", where ?'a = rat] by simp

lemma getComplianceRates_none:
  "countByType ds ''person'' = 0 \<Longrightarrow> getComplianceRates ar ds = []"
  by (simp add: getComplianceRates_def)

lemma getComplianceRates_AlertDashboard_none:
  "countByType ds ''person'' = 0 \<Longrightarrow> getComplianceRates_AlertDashboard ar ds = []"
  by (simp add: getComplianceRates_AlertDashboard_def)

lemma getComplianceRates_some:
  assumes "countByType ds ''person'' \<noteq> 0"
    and "c \<in> set [''hat'', ''mask'', ''gloves'', ''glasses'', ''boots'', ''hearing'']"
  shows "map_of (getComplianceRates ar ds) c =
           Some (h_toFixed1 ar (rateOf ar (countByType ds c) (countByType ds ''person'')))"
  using assms by (auto simp: getComplianceRates_def Let_def)

lemma getComplianceRates_AlertDashboard_some:
  assumes "countByType ds ''person'' \<noteq> 0"
    and "c \<in> set [''mask'', ''gloves'', ''goggles'', ''coverall'', ''face_Shield'']"
  shows "map_of (getComplianceRates_AlertDashboard ar ds) c =
           Some (h_toFixed1 ar (rateOf ar (countByType ds c) (countByType ds ''person'')))"
  using assms by (auto simp: getComplianceRates_AlertDashboard_def Let_def)

text \<open>The rate of one mask among three persons, at exact arithmetic.\<close>

lemma rate_one_third:
  "h_toFixed1 exact_arith (rateOf exact_arith 1 3) = ''33.3''"
proof -
  have r: "rateOf exact_arith 1 3 = Finite (100 / 3)"
    by (simp add: rateOf_def exact_arith_def js_lift_def js_quot_def js_div_def)
  have t: "tenths (100 / 3) = 333" by (simp add: tenths_def floor_rat_numeral)
  have s: "show_nat 33 = ''33''" "show_nat 3 = ''3''"
    by (simp_all add: show_nat.simps char_of_eq_iff)
  show ?thesis unfolding r by (simp add: exact_arith_def js_toFixed1_def toFixed1_def t s)
qed

lemma rate_one_half:
  "h_toFixed1 exact_arith (rateOf exact_arith 1 2) = ''50.0''"
proof -
  have r: "rateOf exact_arith 1 2 = Finite 50"
    by (simp add: rateOf_def exact_arith_def js_lift_def js_quot_def js_div_def)
  have t: "tenths 50 = 500" by (simp add: tenths_def floor_rat_numeral)
  have s: "show_nat 50 = ''50''" "show_nat 0 = ''0''"
    by (simp_all add: show_nat.simps char_of_eq_iff)
  show ?thesis unfolding r by (simp add: exact_arith_def js_toFixed1_def toFixed1_def t s)
qed

text \<open>
  Claim C6, as stated, fails. With no person and one mask detection the rate of mask is
  not 0: \<open>getComplianceRates\<close> returns the empty object, so the class has no rate at all.
  With three persons and one mask the rate kept is not the number \<open>100 / 3\<close>: it is the
  string \<open>33.3\<close> that \<open>toFixed(1)\<close> prints for it.
\<close>

theorem compliance_rate_counterexample:
  "countByType [maskA] ''person'' = 0 \<and> countByType [maskA] ''mask'' = 1
   \<and> getComplianceRates exact_arith [maskA] = []
   \<and> map_of (getComplianceRates exact_arith [maskA]) ''mask'' = None
   \<and> getComplianceRates_AlertDashboard exact_arith [maskA] = []
   \<and> countByType [personA, personFar, bare1, maskA] ''person'' = 3
   \<and> countByType [personA, personFar, bare1, maskA] ''mask'' = 1
   \<and> rateOf exact_arith 1 3 = Finite (100 / 3)
   \<and> map_of (getComplianceRates exact_arith [personA, personFar, bare1, maskA]) ''mask''
       = Some ''33.3''"
proof -
  let ?ds = "[personA, personFar, bare1, maskA]"
  have 0: "countByType [maskA] ''person'' = 0" "countByType [maskA] ''mask'' = 1"
    by (simp_all add: countByType_def maskA_def)
  have p: "countByType ?ds ''person'' = 3" "countByType ?ds ''mask'' = 1"
    by (simp_all add: countByType_def personA_def personFar_def bare1_def maskA_def)
  have r: "rateOf exact_arith 1 3 = Finite (100 / 3)"
    by (simp add: rateOf_def exact_arith_def js_lift_def js_quot_def js_div_def)
  have "map_of (getComplianceRates exact_arith ?ds) ''mask'' =
      Some (h_toFixed1 exact_arith (rateOf exact_arith (countByType ?ds ''mask'')
        (countByType ?ds ''person'')))"
    by (rule getComplianceRates_some) (simp_all add: p)
  then have e: "map_of (getComplianceRates exact_arith ?ds) ''mask'' = Some ''33.3''"
    by (simp only: p rate_one_third)
  show ?thesis
    using 0 p r e
    by (simp add: getComplianceRates_none getComplianceRates_AlertDashboard_none)
qed

text \<open>
  Claim C6, amended. With no person detection both components return the empty object:
  no class has a rate, and nothing is divided by the person count. With at least one
  person, the entry of each class of the component is what \<open>toFixed(1)\<close> prints for
  \<open>Math.min(100, (count(class) / count(person)) * 100)\<close>, each operation being the host's.
\<close>

theorem compliance_rates:
  "(countByType ds ''person'' = 0 \<longrightarrow>
      getComplianceRates ar ds = [] \<and> getComplianceRates_AlertDashboard ar ds = []
      \<and> map_of (getComplianceRates ar ds) c = None
      \<and> map_of (getComplianceRates_AlertDashboard ar ds) c = None)
   \<and> (countByType ds ''person'' \<noteq> 0 \<and>
       c \<in> set [''hat'', ''mask'', ''gloves'', ''glasses'', ''boots'', ''hearing''] \<longrightarrow>
         map_of (getComplianceRates ar ds) c =
           Some (h_toFixed1 ar
             (h_min ar (h_num ar 100)
                (h_mul ar
                   (h_div ar (h_num ar (of_nat (countByType ds c)))
                             (h_num ar (of_nat (countByType ds ''person''))))
                   (h_num ar 100)))))
   \<and> (countByType ds ''person'' \<noteq> 0 \<and>
       c \<in> set [''mask'', ''gloves'', ''goggles'', ''coverall'', ''face_Shield''] \<longrightarrow>
         map_of (getComplianceRates_AlertDashboard ar ds) c =
           Some (h_toFixed1 ar
             (h_min ar (h_num ar 100)
                (h_mul ar
                   (h_div ar (h_num ar (of_nat (countByType ds c)))
                             (h_num ar (of_nat (countByType ds ''person''))))
                   (h_num ar 100)))))"
proof -
  have none: "getComplianceRates ar ds = [] \<and> getComplianceRates_AlertDashboard ar ds = []
      \<and> map_of (getComplianceRates ar ds) c = None
      \<and> map_of (getComplianceRates_AlertDashboard ar ds) c = None"
    if "countByType ds ''person'' = 0"
    using that
    by (simp add: getComplianceRates_none getComplianceRates_AlertDashboard_none)
  show ?thesis
    using none getComplianceRates_some [of ds c ar]
      getComplianceRates_AlertDashboard_some [of ds c ar]
    unfolding rateOf_def by blast
qed

theorem compliance_rates_witness:
  "countByType [maskA] ''person'' = 0 \<and> getComplianceRates exact_arith [maskA] = []
   \<and> countByType [personA, personFar, maskA] ''person'' \<noteq> 0
   \<and> ''mask'' \<in> set [''hat'', ''mask'', ''gloves'', ''glasses'', ''boots'', ''hearing'']
   \<and> ''mask'' \<in> set [''mask'', ''gloves'', ''goggles'', ''coverall'', ''face_Shield'']
   \<and> map_of (getComplianceRates exact_arith [personA, personFar, maskA]) ''mask'' = Some ''50.0''
   \<and> map_of (getComplianceRates_AlertDashboard exact_arith [personA, personFar, maskA]) ''mask''
       = Some ''50.0''"
proof -
  let ?ds = "[personA, personFar, maskA]"
  have 0: "countByType [maskA] ''person'' = 0" by (simp add: countByType_def maskA_def)
  have p: "countByType ?ds ''person'' = 2" "countByType ?ds ''mask'' = 1"
    by (simp_all add: countByType_def personA_def personFar_def maskA_def)
  have half: "h_toFixed1 exact_arith
      (h_min exact_arith (h_num exact_arith 100)
         (h_mul exact_arith
            (h_div exact_arith (h_num exact_arith (of_nat 1)) (h_num exact_arith (of_nat 2)))
            (h_num exact_arith 100))) = ''50.0''"
    using rate_one_half by (simp add: rateOf_def)
  note none = compliance_rates [of "[maskA]" exact_arith "''mask''"]
  note some = compliance_rates [of ?ds exact_arith "''mask''"]
  from none 0 have a: "getComplianceRates exact_arith [maskA] = []" by blast
  from some p have b: "map_of (getComplianceRates exact_arith ?ds) ''mask'' = Some ''50.0''"
    using half by simp
  from some p have c:
    "map_of (getComplianceRates_AlertDashboard exact_arith ?ds) ''mask'' = Some ''50.0''"
    using half by simp
  show ?thesis using 0 a p b c by simp
qed

section \<open>The live session\<close>












end
